theory Spec2Isabelle
  imports Main "HOL-Library.Word" "HOL-Library.Sublist"
begin

section \<open>Strings\<close>

text \<open>
  JavaScript strings are modelled as \<open>string\<close> (lists of 8-bit characters); host names,
  header values, paths and URLs of this program are ASCII.  \<open>toLowerCase\<close> acts on the
  ASCII letters and leaves every other character alone.
\<close>

definition toLowerChar :: "char \<Rightarrow> char" where
  "toLowerChar c =
     (if (65::nat) \<le> of_char c \<and> of_char c \<le> (90::nat)
      then char_of (of_char c + (32::nat)) else c)"

definition toLowerCase :: "string \<Rightarrow> string" where
  "toLowerCase s = map toLowerChar s"

text \<open>\<open>s.startsWith(p)\<close>, \<open>s.endsWith(p)\<close> and \<open>s.includes(p)\<close> (named \<open>strIncludes\<close>: \<open>includes\<close> is reserved).\<close>

fun startsWith :: "string \<Rightarrow> string \<Rightarrow> bool" where
  "startsWith s [] = True"
| "startsWith [] (p # ps) = False"
| "startsWith (c # cs) (p # ps) = (c = p \<and> startsWith cs ps)"


fun strIncludes :: "string \<Rightarrow> string \<Rightarrow> bool" where
  "strIncludes [] p = (p = [])"
| "strIncludes (c # cs) p = (startsWith (c # cs) p \<or> strIncludes cs p)"

text \<open>\<open>s.split(d)\<close> for a one-character separator, and \<open>xs.join(d)\<close>.\<close>

fun splitOn :: "char \<Rightarrow> string \<Rightarrow> string list" where
  "splitOn d [] = [[]]"
| "splitOn d (c # cs) =
     (if c = d then [] # splitOn d cs
      else (case splitOn d cs of [] \<Rightarrow> [[c]] | x # xs \<Rightarrow> (c # x) # xs))"

fun joinWith :: "char \<Rightarrow> string list \<Rightarrow> string" where
  "joinWith d [] = []"
| "joinWith d [x] = x"
| "joinWith d (x # y # ys) = x @ d # joinWith d (y # ys)"

section \<open>The path module of Node.js (POSIX flavour)\<close>

text \<open>
  The server uses \<open>path.normalize\<close>, \<open>path.resolve\<close>, \<open>path.join\<close>, \<open>path.isAbsolute\<close>
  and \<open>path.extname\<close> of the Node.js standard library.  They are library code; the
  definitions below follow the POSIX implementation (\<open>lib/path.js\<close>), which walks a path
  segment by segment: empty segments and \<open>.\<close> are dropped, \<open>..\<close> removes the segment before
  it, and a \<open>..\<close> that has nothing to remove is kept only when the path is relative
  (\<open>allowAboveRoot\<close>).
\<close>

definition isAbsolute :: "string \<Rightarrow> bool" where
  "isAbsolute p = (p \<noteq> [] \<and> hd p = CHR ''/'')"

fun normSegs :: "bool \<Rightarrow> string list \<Rightarrow> string list \<Rightarrow> string list" where
  "normSegs allowAboveRoot [] acc = acc"
| "normSegs allowAboveRoot (s # ss) acc =
     (if s = [] \<or> s = ''.'' then normSegs allowAboveRoot ss acc
      else if s = ''..'' then
        (if acc \<noteq> [] \<and> last acc \<noteq> ''..'' then normSegs allowAboveRoot ss (butlast acc)
         else if allowAboveRoot then normSegs allowAboveRoot ss (acc @ [''..''])
         else normSegs allowAboveRoot ss acc)
      else normSegs allowAboveRoot ss (acc @ [s]))"

definition normalizeString :: "string \<Rightarrow> bool \<Rightarrow> string" where
  "normalizeString p allowAboveRoot =
     joinWith (CHR ''/'') (normSegs allowAboveRoot (splitOn (CHR ''/'') p) [])"

definition normalize :: "string \<Rightarrow> string" where
  "normalize p =
     (if p = [] then ''.''
      else
        let isAbs = (hd p = CHR ''/'');
            trailingSeparator = (last p = CHR ''/'');
            q = normalizeString p (\<not> isAbs)
        in if q = [] then (if isAbs then ''/'' else if trailingSeparator then ''./'' else ''.'')
           else (let q' = (if trailingSeparator then q @ ''/'' else q)
                 in if isAbs then CHR ''/'' # q' else q'))"

text \<open>
  \<open>path.resolve(...args)\<close> goes through its arguments from the right, and then through the
  working directory, until the path collected so far is absolute.
\<close>

fun resolveCollect :: "string list \<Rightarrow> string \<Rightarrow> string" where
  "resolveCollect [] resolvedPath = resolvedPath"
| "resolveCollect (p # ps) resolvedPath =
     (if p = [] then resolveCollect ps resolvedPath
      else if hd p = CHR ''/'' then p @ CHR ''/'' # resolvedPath
      else resolveCollect ps (p @ CHR ''/'' # resolvedPath))"

definition resolve :: "string \<Rightarrow> string list \<Rightarrow> string" where
  "resolve cwd args =
     (let resolvedPath = resolveCollect (rev args @ [cwd]) [];
          resolvedAbsolute = isAbsolute resolvedPath;
          r = normalizeString resolvedPath (\<not> resolvedAbsolute)
      in if resolvedAbsolute then CHR ''/'' # r
         else if r \<noteq> [] then r else ''.'')"

definition join :: "string list \<Rightarrow> string" where
  "join args =
     (let joined = joinWith (CHR ''/'') (filter (\<lambda>a. a \<noteq> []) args)
      in if joined = [] then ''.'' else normalize joined)"

text \<open>
  \<open>path.extname\<close>: the extension of the last non-empty segment, from its last dot on;
  empty when there is no dot, when the only dot is the first character, or when the
  segment is \<open>..\<close>.
\<close>

definition basenameOf :: "string \<Rightarrow> string" where
  "basenameOf p =
     (case filter (\<lambda>s. s \<noteq> []) (rev (splitOn (CHR ''/'') p)) of [] \<Rightarrow> [] | b # _ \<Rightarrow> b)"

definition extname :: "string \<Rightarrow> string" where
  "extname p =
     (let b = basenameOf p;
          ext = rev (takeWhile (\<lambda>c. c \<noteq> CHR ''.'') (rev b))
      in if CHR ''.'' \<notin> set b then []
         else if length ext + 1 = length b then []
         else if b = ''..'' then []
         else CHR ''.'' # ext)"

section \<open>Path validation (src/index.ts)\<close>

definition validatePath :: "string \<Rightarrow> string \<Rightarrow> string \<Rightarrow> string option" where
  "validatePath cwd basePath requestedPath =
     (let relativePath =
            (if startsWith requestedPath ''/'' then drop 1 requestedPath else requestedPath);
          normalizedPath = normalize relativePath
      in if strIncludes normalizedPath ''..'' \<or> isAbsolute normalizedPath then None
         else
           let resolvedPath = resolve cwd [basePath, normalizedPath];
               resolvedBase = resolve cwd [basePath]
           in if \<not> startsWith resolvedPath resolvedBase then None
              else Some resolvedPath)"

definition isFilePath :: "string \<Rightarrow> bool" where
  "isFilePath filePath = (let ext = extname filePath in ext \<noteq> [] \<and> ext \<noteq> ''/'')"

text \<open>
  A path lies within a directory when the directory's segments are the first segments of
  the path (a comparison of whole segments, not of characters).
\<close>

definition segments :: "string \<Rightarrow> string list" where
  "segments p = filter (\<lambda>s. s \<noteq> []) (splitOn (CHR ''/'') p)"

definition pathWithin :: "string \<Rightarrow> string \<Rightarrow> bool" where
  "pathWithin base p = prefix (segments base) (segments p)"

section \<open>Configuration (src/config.ts)\<close>

text \<open>
  A rendering strategy is one of the strings \<open>smart-ssr\<close>, \<open>ssr\<close>, \<open>csr\<close>; the value comes
  unchecked from \<open>config.json\<close> or the environment, and the code's \<open>switch\<close> statements
  have a \<open>default\<close> branch, so it is kept as a string.  Optional fields are \<open>option\<close>s; the
  optional overrides of a host are prefixed \<open>h_\<close>.
\<close>

record HtmlOptimizerOptions =
  removeDataAttributes :: "bool option"
  removeAriaAttributes :: "bool option"
  removeStyleAttributes :: "bool option"
  removeInlineStyles :: "bool option"

record HostConfig =
  source :: string
  host :: string
  isActive :: "bool option"
  h_timeoutMs :: "int option"
  h_parallelRenders :: "int option"
  h_bots :: "string list option"
  h_strategy :: "string option"
  h_rootSelector :: "string option"
  h_htmlOptimizerOptions :: "HtmlOptimizerOptions option"

text \<open>The global configuration as \<open>loadConfig\<close> leaves it (fields prefixed \<open>g_\<close>).\<close>

record GlobalConfig =
  g_port :: int
  g_parallelRenders :: int
  g_bots :: "string list"
  g_cacheCleanupInterval :: "int option"
  g_strategy :: string
  g_hosts :: "HostConfig list"
  g_logs :: "string option"
  g_rootSelector :: "string option"
  g_clearCacheOnStartup :: "bool option"
  g_htmlOptimizerOptions :: "HtmlOptimizerOptions option"
  g_timeoutMs :: "int option"
  g_maxConcurrency :: "int option"

subsection \<open>Glob matching of host patterns\<close>

text \<open>
  \<open>matchesGlobPattern\<close> rewrites the pattern into the source of a regular expression in
  three \<open>String.replace\<close> steps and tests the host name against \<open>^...$\<close>.
\<close>

definition placeholder :: string where
  "placeholder = ''__WILDCARD_PLACEHOLDER__''"

text \<open>\<open>pattern.replace(/\*/g, placeholder)\<close>\<close>

definition replaceStars :: "string \<Rightarrow> string" where
  "replaceStars pattern =
     concat (map (\<lambda>c. if c = CHR ''*'' then placeholder else [c]) pattern)"

text \<open>The character class \<open>[.+?^${}()|[\]\\]\<close> and the replacement \<open>'\\$&'\<close>.\<close>

definition isRegexSpecial :: "char \<Rightarrow> bool" where
  "isRegexSpecial c = (c \<in> set ''.+?^${}()|[]'' \<or> c = CHR 0x5C)"

definition escapeRegexChars :: "string \<Rightarrow> string" where
  "escapeRegexChars s =
     concat (map (\<lambda>c. if isRegexSpecial c then [CHR 0x5C, c] else [c]) s)"

text \<open>
  \<open>s.replace(new RegExp(pat, 'g'), rep)\<close> for a pattern without metacharacters (the
  placeholder has none): every occurrence, leftmost first, without overlap.
\<close>

function replaceAll :: "string \<Rightarrow> string \<Rightarrow> string \<Rightarrow> string" where
  "replaceAll pat rep s =
     (if s = [] \<or> pat = [] then s
      else if startsWith s pat then rep @ replaceAll pat rep (drop (length pat) s)
      else hd s # replaceAll pat rep (tl s))"
  by pat_completeness auto
termination
  by (relation "measure (\<lambda>(pat, rep, s). length s)") auto

text \<open>
  The regular expressions this code can build consist of literal characters, escaped
  metacharacters and \<open>.*\<close>, between \<open>^\<close> and \<open>$\<close>.  \<open>rxParse\<close> reads the part between the
  anchors; it returns \<open>None\<close> for anything else (where \<open>new RegExp\<close> would throw or would
  mean something this model does not cover).  In a JavaScript regular expression without
  flags \<open>.\<close> matches every character but a line terminator, and \<open>$\<close> only the end of the
  input.
\<close>

datatype rx = Lit char | DotStar

fun rxParse :: "string \<Rightarrow> rx list option" where
  "rxParse [] = Some []"
| "rxParse (c # r) =
     (if c = CHR 0x5C then
        (case r of
           [] \<Rightarrow> None
         | e # r' \<Rightarrow> if isRegexSpecial e then map_option ((#) (Lit e)) (rxParse r') else None)
      else if c = CHR ''.'' then
        (case r of
           [] \<Rightarrow> None
         | e # r' \<Rightarrow> if e = CHR ''*'' then map_option ((#) DotStar) (rxParse r') else None)
      else if isRegexSpecial c \<or> c = CHR ''*'' then None
      else map_option ((#) (Lit c)) (rxParse r))"

definition isLineTerminator :: "char \<Rightarrow> bool" where
  "isLineTerminator c = (c = CHR 0x0A \<or> c = CHR 0x0D)"

fun rxMatch :: "rx list \<Rightarrow> string \<Rightarrow> bool" where
  "rxMatch [] s = (s = [])"
| "rxMatch (Lit c # r) [] = False"
| "rxMatch (Lit c # r) (x # xs) = (x = c \<and> rxMatch r xs)"
| "rxMatch (DotStar # r) [] = rxMatch r []"
| "rxMatch (DotStar # r) (x # xs) =
     (rxMatch r (x # xs) \<or> (\<not> isLineTerminator x \<and> rxMatch (DotStar # r) xs))"

text \<open>\<open>new RegExp('^' + body + '$').test(s)\<close>; \<open>None\<close> when the body is outside the model.\<close>

definition regexTest :: "string \<Rightarrow> string \<Rightarrow> bool option" where
  "regexTest body s = map_option (\<lambda>r. rxMatch r s) (rxParse body)"

definition globRegexBody :: "string \<Rightarrow> string" where
  "globRegexBody pattern =
     replaceAll placeholder ''.*'' (escapeRegexChars (replaceStars pattern))"

definition matchesGlobPattern :: "string \<Rightarrow> string \<Rightarrow> bool" where
  "matchesGlobPattern pattern hostname =
     (if pattern = hostname then True
      else if pattern = ''*'' then True
      else (case regexTest (globRegexBody pattern) hostname of
              Some b \<Rightarrow> b
            | None \<Rightarrow> False))"

definition hostActive :: "HostConfig \<Rightarrow> bool" where
  "hostActive h = (case isActive h of None \<Rightarrow> True | Some b \<Rightarrow> b)"

definition getHostConfig :: "GlobalConfig \<Rightarrow> string \<Rightarrow> HostConfig option" where
  "getHostConfig config hostname =
     (case find (\<lambda>h. host h = hostname \<and> hostActive h) (g_hosts config) of
        Some exactMatch \<Rightarrow> Some exactMatch
      | None \<Rightarrow> find (\<lambda>h. matchesGlobPattern (host h) hostname \<and> hostActive h) (g_hosts config))"

text \<open>
  The glob semantics that the specification gives, for comparison with
  \<open>matchesGlobPattern\<close>: the match is anchored at both ends, \<open>*\<close> matches any run of
  characters, and every other character of the pattern stands for itself.
\<close>

fun specGlob :: "string \<Rightarrow> string \<Rightarrow> bool" where
  "specGlob [] [] = True"
| "specGlob [] (x # xs) = False"
| "specGlob (c # p) [] = (c = CHR ''*'' \<and> specGlob p [])"
| "specGlob (c # p) (x # xs) =
     (if c = CHR ''*'' then specGlob p (x # xs) \<or> specGlob (c # p) xs
      else c = x \<and> specGlob p xs)"

record EffectiveConfig =
  e_port :: int
  e_timeoutMs :: int
  e_cacheTtl :: int
  e_botOnly :: bool
  e_maxConcurrency :: int
  e_bots :: "string list"
  e_hostsDir :: string
  e_source :: "string option"
  e_logs :: string
  e_renderingStrategy :: string
  e_rootSelector :: "string option"
  e_clearCacheOnStartup :: bool
  e_htmlOptimizerOptions :: "HtmlOptimizerOptions option"

text \<open>\<open>a ?? b\<close> on an optional first operand, and \<open>n || d\<close> on an optional number.\<close>

definition orElse :: "'a option \<Rightarrow> 'a \<Rightarrow> 'a" where
  "orElse a b = (case a of Some x \<Rightarrow> x | None \<Rightarrow> b)"

definition numOr :: "int option \<Rightarrow> int \<Rightarrow> int" where
  "numOr n d = (case n of Some x \<Rightarrow> (if x = 0 then d else x) | None \<Rightarrow> d)"

definition getEffectiveConfig :: "GlobalConfig \<Rightarrow> string option \<Rightarrow> EffectiveConfig" where
  "getEffectiveConfig global hostname =
     (let hostCfg = (case hostname of
                       None \<Rightarrow> None
                     | Some hn \<Rightarrow> if hn = [] then None else getHostConfig global hn);
          renderingStrategy = orElse (Option.bind hostCfg h_strategy) (g_strategy global);
          botOnly = (renderingStrategy = ''smart-ssr'' \<or> renderingStrategy = ''csr'')
      in \<lparr> e_port = g_port global,
           e_timeoutMs = orElse (Option.bind hostCfg h_timeoutMs) (orElse (g_timeoutMs global) 10000),
           e_cacheTtl = numOr (g_cacheCleanupInterval global) 60 * 60,
           e_botOnly = botOnly,
           e_maxConcurrency = orElse (Option.bind hostCfg h_parallelRenders) (g_parallelRenders global),
           e_bots = orElse (Option.bind hostCfg h_bots) (g_bots global),
           e_hostsDir = ''./hosts'',
           e_source = map_option source hostCfg,
           e_logs = orElse (g_logs global) ''ssr'',
           e_renderingStrategy = renderingStrategy,
           e_rootSelector = (case Option.bind hostCfg h_rootSelector of
                               Some r \<Rightarrow> Some r | None \<Rightarrow> g_rootSelector global),
           e_clearCacheOnStartup = orElse (g_clearCacheOnStartup global) True,
           e_htmlOptimizerOptions = (case Option.bind hostCfg h_htmlOptimizerOptions of
                               Some r \<Rightarrow> Some r | None \<Rightarrow> g_htmlOptimizerOptions global) \<rparr>)"

section \<open>The platform: library functions taken as parameters\<close>

text \<open>
  Functions of Node.js and of third-party packages whose code is not part of the
  repository are parameters of the model, collected in one record: the working
  directory and the \<open>CACHE_DIR\<close> variable of the process, \<open>createHash('sha256')\<close> with a hex
  digest, the WHATWG \<open>URL\<close> constructor (\<open>None\<close> when it throws), \<open>JSON.parse\<close> read at the
  declared type \<open>CacheMetadata\<close> (\<open>None\<close> when it throws) and \<open>JSON.stringify\<close>, \<open>Number\<close>
  applied to a string (\<open>None\<close> for \<open>NaN\<close>), and cheerio's parser and serializer.  Every theorem holds for every platform.
\<close>

record URL =
  u_protocol :: string
  u_host :: string
  u_hostname :: string
  u_pathname :: string
  u_search :: string

record CacheMetadata =
  expiresAt :: int
  m_url :: string
  m_deviceType :: string

datatype node =
    Element string "(string \<times> string) list" "node list"
  | TextNode string
  | CommentNode string
  | Doctype string

record platform =
  processCwd :: string
  envCacheDir :: "string option"
  sha256Hex :: "string \<Rightarrow> string"
  newURL :: "string \<Rightarrow> URL option"
  jsonParse :: "string \<Rightarrow> CacheMetadata option"
  jsonStringify :: "CacheMetadata \<Rightarrow> string"
  jsNumber :: "string \<Rightarrow> int option"
  cheerioLoad :: "string \<Rightarrow> node list option"
  cheerioParseFragment :: "string \<Rightarrow> node list"
  cheerioHtml :: "node list \<Rightarrow> string"

section \<open>The HTML optimizer (src/htmlOptimizer.ts)\<close>

text \<open>
  The optimizer works on the document tree that \<open>cheerio.load\<close> builds: a list of top-level
  nodes; an element has a (lower-case) tag name, its attributes in order, and its
  children.  Each statement of the source is one pass over the tree, in the order of
  the source.  Attribute selectors compare attribute values as written.
\<close>

definition attr :: "node \<Rightarrow> string \<Rightarrow> string option" where
  "attr n name = (case n of Element t as cs \<Rightarrow> map_of as name | _ \<Rightarrow> None)"

definition isTag :: "string \<Rightarrow> node \<Rightarrow> bool" where
  "isTag name n = (case n of Element t as cs \<Rightarrow> t = name | _ \<Rightarrow> False)"

text \<open>\<open>$(selector).remove()\<close>: every node that matches goes, with its subtree.\<close>

fun removeNodes :: "(node \<Rightarrow> bool) \<Rightarrow> node list \<Rightarrow> node list" where
  "removeNodes P [] = []"
| "removeNodes P (Element t as cs # ns) =
     (if P (Element t as cs) then removeNodes P ns
      else Element t as (removeNodes P cs) # removeNodes P ns)"
| "removeNodes P (n # ns) = (if P n then removeNodes P ns else n # removeNodes P ns)"

text \<open>A change of the attributes of every element.\<close>

fun mapAttrs :: "(string \<Rightarrow> (string \<times> string) list \<Rightarrow> (string \<times> string) list) \<Rightarrow>
    node list \<Rightarrow> node list" where
  "mapAttrs f [] = []"
| "mapAttrs f (Element t as cs # ns) = Element t (f t as) (mapAttrs f cs) # mapAttrs f ns"
| "mapAttrs f (n # ns) = n # mapAttrs f ns"

text \<open>All elements in document order, as a selection \<open>$('*')\<close> lists them.\<close>

fun allElements :: "node list \<Rightarrow> node list" where
  "allElements [] = []"
| "allElements (Element t as cs # ns) = Element t as cs # allElements cs @ allElements ns"
| "allElements (n # ns) = allElements ns"

text \<open>
  The favicon passes.  The first finds the last \<open>apple-touch-icon\<close> link whose \<open>sizes\<close>
  contain \<open>180x180\<close>; links are identified by their position among the \<open>link\<close> elements in
  document order.  The second goes through all links with three flags and decides
  which to remove.
\<close>

definition relOf :: "node \<Rightarrow> string option" where
  "relOf n = attr n ''rel''"

definition isApple180 :: "node \<Rightarrow> bool" where
  "isApple180 n =
     (relOf n = Some ''apple-touch-icon'' \<and>
      (case attr n ''sizes'' of None \<Rightarrow> False | Some sizes \<Rightarrow> sizes \<noteq> [] \<and> strIncludes sizes ''180x180''))"

fun findAppleIcon180 :: "node list \<Rightarrow> nat \<Rightarrow> nat option \<Rightarrow> nat option" where
  "findAppleIcon180 [] i found = found"
| "findAppleIcon180 (l # ls) i found =
     findAppleIcon180 ls (i + 1) (if isApple180 l then Some i else found)"

record iconFlags =
  manifestKept :: bool
  faviconKept :: bool
  appleIconKept :: bool

fun linkDecisions :: "nat option \<Rightarrow> node list \<Rightarrow> nat \<Rightarrow> iconFlags \<Rightarrow> bool list" where
  "linkDecisions appleIcon180 [] i flags = []"
| "linkDecisions appleIcon180 (el # ls) i flags =
     (let rel = relOf el in
      if rel = Some ''manifest'' then
        (if manifestKept flags then True # linkDecisions appleIcon180 ls (i + 1) flags
         else False # linkDecisions appleIcon180 ls (i + 1) (flags\<lparr>manifestKept := True\<rparr>))
      else if rel = Some ''icon'' then
        (if faviconKept flags then True # linkDecisions appleIcon180 ls (i + 1) flags
         else False # linkDecisions appleIcon180 ls (i + 1) (flags\<lparr>faviconKept := True\<rparr>))
      else if rel = Some ''apple-touch-icon'' then
        (if appleIcon180 = Some i then
           False # linkDecisions appleIcon180 ls (i + 1) (flags\<lparr>appleIconKept := True\<rparr>)
         else if appleIcon180 \<noteq> None then True # linkDecisions appleIcon180 ls (i + 1) flags
         else if appleIconKept flags then True # linkDecisions appleIcon180 ls (i + 1) flags
         else False # linkDecisions appleIcon180 ls (i + 1) (flags\<lparr>appleIconKept := True\<rparr>))
      else False # linkDecisions appleIcon180 ls (i + 1) flags)"

text \<open>Removes the links whose decision is \<open>True\<close>; one decision is used up per link.\<close>

fun removeFlagged :: "bool list \<Rightarrow> node list \<Rightarrow> node list \<times> bool list" where
  "removeFlagged ds [] = ([], ds)"
| "removeFlagged ds (Element t as cs # ns) =
     (if t = ''link'' then
        (case removeFlagged (tl ds) cs of
           (cs', ds1) \<Rightarrow>
             (case removeFlagged ds1 ns of
                (ns', ds2) \<Rightarrow>
                  (if (case ds of [] \<Rightarrow> False | d # _ \<Rightarrow> d) then ns'
                   else Element t as cs' # ns', ds2)))
      else
        (case removeFlagged ds cs of
           (cs', ds1) \<Rightarrow>
             (case removeFlagged ds1 ns of
                (ns', ds2) \<Rightarrow> (Element t as cs' # ns', ds2))))"
| "removeFlagged ds (n # ns) =
     (case removeFlagged ds ns of (ns', ds1) \<Rightarrow> (n # ns', ds1))"

definition dedupeIcons :: "node list \<Rightarrow> node list" where
  "dedupeIcons doc =
     (let links = filter (isTag ''link'') (allElements doc);
          appleIcon180 = findAppleIcon180 links 0 None;
          ds = linkDecisions appleIcon180 links 0
                 \<lparr>manifestKept = False, faviconKept = False, appleIconKept = False\<rparr>
      in fst (removeFlagged ds doc))"

text \<open>\<open>$('*').contents()\<close> filtered to comment nodes: the comments that have a parent element.\<close>

fun removeComments :: "bool \<Rightarrow> node list \<Rightarrow> node list" where
  "removeComments inElement [] = []"
| "removeComments inElement (Element t as cs # ns) =
     Element t as (removeComments True cs) # removeComments inElement ns"
| "removeComments inElement (CommentNode c # ns) =
     (if inElement then removeComments inElement ns
      else CommentNode c # removeComments inElement ns)"
| "removeComments inElement (n # ns) = n # removeComments inElement ns"

text \<open>
  White space as \<open>\s\<close> and \<open>trim\<close> see it, among the characters below 256: tab, line feed,
  vertical tab, form feed, carriage return, space and no-break space.
\<close>

definition isSpace :: "char \<Rightarrow> bool" where
  "isSpace c = (c \<in> {CHR 0x09, CHR 0x0A, CHR 0x0B, CHR 0x0C, CHR 0x0D, CHR 0x20, CHR 0xA0})"

definition trim :: "string \<Rightarrow> string" where
  "trim s = rev (dropWhile isSpace (rev (dropWhile isSpace s)))"

text \<open>\<open>text.replace(/\s+/g, ' ')\<close>\<close>

fun collapseRuns :: "bool \<Rightarrow> string \<Rightarrow> string" where
  "collapseRuns inRun [] = []"
| "collapseRuns inRun (c # cs) =
     (if isSpace c then (if inRun then collapseRuns True cs else CHR '' '' # collapseRuns True cs)
      else c # collapseRuns False cs)"

definition collapseSpace :: "string \<Rightarrow> string" where
  "collapseSpace s = collapseRuns False s"

fun textContent :: "node list \<Rightarrow> string" where
  "textContent [] = []"
| "textContent (Element t as cs # ns) = textContent cs @ textContent ns"
| "textContent (TextNode s # ns) = s @ textContent ns"
| "textContent (n # ns) = textContent ns"

definition keepTags :: "string list" where
  "keepTags = [''script'', ''style'', ''meta'', ''link'', ''img'', ''br'', ''hr'', ''input'',
               ''source'', ''track'', ''area'', ''col'', ''embed'', ''param'', ''wbr'']"

text \<open>The test of the empty-element pass on one element of \<open>$('body *')\<close>.\<close>

definition isEmptyElement :: "node \<Rightarrow> bool" where
  "isEmptyElement n =
     (case n of
        Element tagName as cs \<Rightarrow>
          (let text = trim (textContent cs);
               children = length (filter (\<lambda>c. case c of Element _ _ _ \<Rightarrow> True | _ \<Rightarrow> False) cs);
               hasAttributes = (as \<noteq> [])
           in tagName \<notin> set keepTags \<and> text = [] \<and> children = 0 \<and> \<not> hasAttributes)
      | _ \<Rightarrow> False)"

text \<open>
  A pass over the descendants of \<open>body\<close> elements: \<open>f\<close> rewrites the list of children of
  each \<open>body\<close>.
\<close>

fun inBody :: "(node list \<Rightarrow> node list) \<Rightarrow> node list \<Rightarrow> node list" where
  "inBody f [] = []"
| "inBody f (Element t as cs # ns) =
     (if t = ''body'' then Element t as (f cs) # inBody f ns
      else Element t as (inBody f cs) # inBody f ns)"
| "inBody f (n # ns) = n # inBody f ns"

text \<open>
  The white-space pass: for every element below \<open>body\<close>, an all-blank text child is
  removed, and any other text child is replaced by what cheerio parses from its
  collapsed, trimmed text (\<open>replaceWith\<close> of a string).  The text children of \<open>body\<close>
  itself are left alone.
\<close>

fun minifyChildren :: "(string \<Rightarrow> node list) \<Rightarrow> node list \<Rightarrow> node list" where
  "minifyChildren parse [] = []"
| "minifyChildren parse (Element t as cs # ns) =
     Element t as (minifyChildren parse cs) # minifyChildren parse ns"
| "minifyChildren parse (TextNode text # ns) =
     (if trim text = [] then minifyChildren parse ns
      else parse (trim (collapseSpace text)) @ minifyChildren parse ns)"
| "minifyChildren parse (n # ns) = n # minifyChildren parse ns"

fun minifyBelow :: "(string \<Rightarrow> node list) \<Rightarrow> node list \<Rightarrow> node list" where
  "minifyBelow parse [] = []"
| "minifyBelow parse (Element t as cs # ns) =
     Element t as (minifyChildren parse cs) # minifyBelow parse ns"
| "minifyBelow parse (n # ns) = n # minifyBelow parse ns"

definition isHidden :: "node \<Rightarrow> bool" where
  "isHidden n =
     (attr n ''hidden'' \<noteq> None \<or>
      (case attr n ''style'' of
         None \<Rightarrow> False
       | Some st \<Rightarrow> strIncludes st ''display:none'' \<or> strIncludes st ''display: none''
                    \<or> strIncludes st ''visibility:hidden''))"

definition dropAttrsWithPrefix :: "string \<Rightarrow> (string \<times> string) list \<Rightarrow> (string \<times> string) list" where
  "dropAttrsWithPrefix pre as = filter (\<lambda>(k, v). \<not> startsWith k pre) as"

definition dropAttr :: "string \<Rightarrow> (string \<times> string) list \<Rightarrow> (string \<times> string) list" where
  "dropAttr name as = filter (\<lambda>(k, v). k \<noteq> name) as"

text \<open>The passes on the tree, in the order of the source.\<close>

definition optimizeDom :: "(string \<Rightarrow> node list) \<Rightarrow> HtmlOptimizerOptions option \<Rightarrow>
    node list \<Rightarrow> node list" where
  "optimizeDom parse options doc0 =
     (let removeData = orElse (Option.bind options removeDataAttributes) True;
          removeAria = orElse (Option.bind options removeAriaAttributes) True;
          removeStyleAttrs = orElse (Option.bind options removeStyleAttributes) True;
          removeStyles = orElse (Option.bind options removeInlineStyles) True;
          d1 = removeNodes (\<lambda>n. isTag ''script'' n \<and> attr n ''type'' \<noteq> Some ''application/ld+json'') doc0;
          d2 = removeNodes (\<lambda>n. isTag ''link'' n \<and>
                 relOf n \<in> {Some ''preload'', Some ''prefetch'', Some ''dns-prefetch'',
                            Some ''modulepreload''}) d1;
          d3 = removeNodes (\<lambda>n. isTag ''link'' n \<and> relOf n = Some ''preconnect'') d2;
          d4 = removeNodes (\<lambda>n. isTag ''link'' n \<and> relOf n = Some ''stylesheet'') d3;
          d5 = (if removeStyles then removeNodes (isTag ''style'') d4 else d4);
          d6 = dedupeIcons d5;
          d7 = removeNodes (\<lambda>n. isTag ''link'' n \<and> relOf n = Some ''mask-icon'') d6;
          d8 = removeNodes (\<lambda>n. isTag ''meta'' n \<and>
                 (case attr n ''name'' of None \<Rightarrow> False | Some v \<Rightarrow> startsWith v ''msapplication'')) d7;
          d9 = mapAttrs (\<lambda>t. dropAttr ''data-testid'') d8;
          d10 = removeNodes (\<lambda>n. isTag ''meta'' n \<and> attr n ''name'' = Some ''next-head-count'') d9;
          d11 = removeComments False d10;
          d12 = removeNodes (isTag ''noscript'') d11;
          d13 = removeNodes isHidden d12;
          d14 = (if removeData
                 then mapAttrs (\<lambda>t as. if t = ''meta'' then as else dropAttrsWithPrefix ''data-'' as) d13
                 else d13);
          d15 = (if removeAria then mapAttrs (\<lambda>t. dropAttrsWithPrefix ''aria-'') d14 else d14);
          d16 = mapAttrs (\<lambda>t. dropAttrsWithPrefix ''on'') d15;
          d17 = (if removeStyleAttrs then mapAttrs (\<lambda>t. dropAttr ''style'') d16 else d16);
          d18 = inBody (removeNodes isEmptyElement) d17;
          d19 = inBody (minifyBelow parse) d18
      in d19)"

text \<open>
  The three string passes on the serialized document:
  \<open>replace(/>\s+</g, '><')\<close>, \<open>replace(/^\s+|\s+$/gm, '')\<close> and \<open>replace(/  +/g, ' ')\<close>.
\<close>

function tightenTags :: "string \<Rightarrow> string" where
  "tightenTags [] = []"
| "tightenTags (c # cs) =
     (let rest = dropWhile isSpace cs in
      if c = CHR ''>'' \<and> cs \<noteq> [] \<and> isSpace (hd cs) \<and> rest \<noteq> [] \<and> hd rest = CHR ''<''
      then ''><'' @ tightenTags (tl rest)
      else c # tightenTags cs)"
  by pat_completeness auto
termination
proof (relation "measure length")
  show "wf (measure length)" by simp
next
  fix c :: char and cs x :: string
  assume "x = dropWhile isSpace cs"
  then have "length x \<le> length cs" by (simp add: length_dropWhile_le)
  then show "(tl x, c # cs) \<in> measure length" by simp
next
  fix c :: char and cs :: string
  show "(cs, c # cs) \<in> measure length" by simp
qed

text \<open>
  With the \<open>m\<close> flag \<open>^\<close> matches at the start of the input and after a line terminator,
  \<open>$\<close> at its end and before a line terminator.  At a white-space character the first
  alternative, when the position is a line start, takes the whole run; otherwise the
  second alternative takes the run up to its last position that is a line end, if
  there is one.  \<open>prevLT\<close> says whether the position is a line start.
\<close>

definition lastLineTerminator :: "string \<Rightarrow> nat option" where
  "lastLineTerminator xs =
     (let js = filter (\<lambda>j. isLineTerminator (xs ! j)) [0..<length xs]
      in if js = [] then None else Some (last js))"

function stripLineEdges :: "bool \<Rightarrow> string \<Rightarrow> string" where
  "stripLineEdges prevLT [] = []"
| "stripLineEdges prevLT (c # cs) =
     (if \<not> isSpace c then c # stripLineEdges False cs
      else if prevLT then stripLineEdges False (dropWhile isSpace cs)
      else if dropWhile isSpace cs = [] then []
      else (case lastLineTerminator (takeWhile isSpace cs) of
              None \<Rightarrow> c # stripLineEdges (isLineTerminator c) cs
            | Some k \<Rightarrow> stripLineEdges (isLineTerminator ((c # cs) ! k)) (drop (Suc k) (c # cs))))"
  by pat_completeness auto
termination
proof (relation "measure (\<lambda>(prevLT, s). length s)")
  show "wf (measure (\<lambda>(prevLT, s). length s))" by simp
next
  fix prevLT :: bool and c :: char and cs :: string
  show "((False, cs), prevLT, c # cs) \<in> measure (\<lambda>(prevLT, s). length s)" by simp
next
  fix prevLT :: bool and c :: char and cs :: string
  have "length (dropWhile isSpace cs) \<le> length cs" by (simp add: length_dropWhile_le)
  then show "((False, dropWhile isSpace cs), prevLT, c # cs) \<in> measure (\<lambda>(prevLT, s). length s)"
    by simp
next
  fix prevLT :: bool and c :: char and cs :: string
  show "((isLineTerminator c, cs), prevLT, c # cs) \<in> measure (\<lambda>(prevLT, s). length s)" by simp
next
  fix prevLT :: bool and c :: char and cs :: string and k :: nat
  show "((isLineTerminator ((c # cs) ! k), drop (Suc k) (c # cs)), prevLT, c # cs)
        \<in> measure (\<lambda>(prevLT, s). length s)" by simp
qed

fun squeezeSpaces :: "bool \<Rightarrow> string \<Rightarrow> string" where
  "squeezeSpaces inRun [] = []"
| "squeezeSpaces inRun (c # cs) =
     (if c = CHR '' '' then (if inRun then squeezeSpaces True cs else c # squeezeSpaces True cs)
      else c # squeezeSpaces False cs)"

text \<open>
  \<open>optimizeHtmlForSEO\<close>: parse, run the passes, serialize, run the string passes; when
  anything throws, the original HTML is returned.
\<close>

definition optimizeHtmlForSEO :: "platform \<Rightarrow> string \<Rightarrow> HtmlOptimizerOptions option \<Rightarrow> string" where
  "optimizeHtmlForSEO plat html options =
     (case cheerioLoad plat html of
        None \<Rightarrow> html
      | Some doc \<Rightarrow>
          (let optimized = cheerioHtml plat (optimizeDom (cheerioParseFragment plat) options doc);
               optimized1 = tightenTags optimized;
               optimized2 = stripLineEdges True optimized1;
               optimized3 = squeezeSpaces False optimized2
           in optimized3))"

section \<open>The cache (src/cache.ts)\<close>

text \<open>
  The cache directory is a small file system: the directory is present, absent (and can
  be created) or blocked (it cannot be created or entered), and a path in it holds no
  file, a file that cannot be read or written, or a file with its contents.  Nothing can
  be read from a directory that is not present.
\<close>

datatype fs_node = Missing | Unreadable | Data string

datatype dir_status = DirPresent | DirAbsent | DirBlocked

datatype fs_error = ENOENT | EACCES

record cache_fs =
  fs_dir :: dir_status
  fs_files :: "string \<Rightarrow> fs_node"

record cache_state =
  cacheDirInitialized :: bool
  fs :: cache_fs

definition readFile :: "cache_fs \<Rightarrow> string \<Rightarrow> fs_error + string" where
  "readFile f p =
     (if fs_dir f \<noteq> DirPresent then Inl ENOENT
      else (case fs_files f p of
              Missing \<Rightarrow> Inl ENOENT
            | Unreadable \<Rightarrow> Inl EACCES
            | Data s \<Rightarrow> Inr s))"

definition writeFile :: "cache_fs \<Rightarrow> string \<Rightarrow> string \<Rightarrow> fs_error + cache_fs" where
  "writeFile f p s =
     (if fs_dir f \<noteq> DirPresent then Inl ENOENT
      else if fs_files f p = Unreadable then Inl EACCES
      else Inr (f\<lparr>fs_files := (fs_files f)(p := Data s)\<rparr>))"

definition succeeded :: "'e + 'a \<Rightarrow> bool" where
  "succeeded r = (case r of Inr _ \<Rightarrow> True | Inl _ \<Rightarrow> False)"

text \<open>\<open>fs.unlink(p).catch(() => {})\<close>: the file is gone afterwards; a failure is ignored.\<close>

definition unlinkQuiet :: "cache_fs \<Rightarrow> string \<Rightarrow> cache_fs" where
  "unlinkQuiet f p =
     (if fs_dir f \<noteq> DirPresent then f else f\<lparr>fs_files := (fs_files f)(p := Missing)\<rparr>)"

text \<open>\<open>fs.mkdir(dir, {recursive: true})\<close>\<close>

definition mkdirRecursive :: "cache_fs \<Rightarrow> fs_error + cache_fs" where
  "mkdirRecursive f =
     (case fs_dir f of
        DirPresent \<Rightarrow> Inr f
      | DirAbsent \<Rightarrow> Inr \<lparr>fs_dir = DirPresent, fs_files = (\<lambda>p. Missing)\<rparr>
      | DirBlocked \<Rightarrow> Inl EACCES)"

definition getCacheDir :: "platform \<Rightarrow> string" where
  "getCacheDir plat =
     (let cacheDir = (case envCacheDir plat of
                        None \<Rightarrow> ''.cache''
                      | Some d \<Rightarrow> if d = [] then ''.cache'' else d)
      in if isAbsolute cacheDir then cacheDir else join [processCwd plat, cacheDir])"

text \<open>
  \<open>ensureCacheDir\<close>.  Calls of the cache do not overlap in this model, so the pending
  promise \<open>cacheDirPromise\<close> is never observed: it is set and settled within one call.
\<close>

definition ensureCacheDir :: "cache_state \<Rightarrow> (fs_error + unit) \<times> cache_state" where
  "ensureCacheDir st =
     (if cacheDirInitialized st then (Inr (), st)
      else (case mkdirRecursive (fs st) of
              Inr f \<Rightarrow> (Inr (), st\<lparr>cacheDirInitialized := True, fs := f\<rparr>)
            | Inl err \<Rightarrow> (Inl err, st)))"

text \<open>The string that is hashed, \<open>`${deviceType}:${url}`\<close>, and the path of the HTML file.\<close>

definition cacheKeyInput :: "string \<Rightarrow> string \<Rightarrow> string" where
  "cacheKeyInput url deviceType = deviceType @ '':'' @ url"

definition getCacheKey :: "platform \<Rightarrow> string \<Rightarrow> string \<Rightarrow> string" where
  "getCacheKey plat url deviceType =
     (let hash = sha256Hex plat (cacheKeyInput url deviceType)
      in join [getCacheDir plat, hash @ ''.html''])"

definition getMetadataPath :: "string \<Rightarrow> string" where
  "getMetadataPath cacheKey = cacheKey @ ''.meta''"

definition isExpired :: "int \<Rightarrow> CacheMetadata \<Rightarrow> bool" where
  "isExpired now metadata = (now > expiresAt metadata)"

text \<open>
  \<open>cache.get\<close>; \<open>now\<close> is the value of \<open>Date.now()\<close>.  The result is the HTML or \<open>None\<close> (the
  source's \<open>null\<close>); each \<open>catch\<close> of the source is a branch.
\<close>

definition cache_get :: "platform \<Rightarrow> int \<Rightarrow> cache_state \<Rightarrow> string \<Rightarrow> string \<Rightarrow>
    string option \<times> cache_state" where
  "cache_get plat now st0 url deviceType =
     (case ensureCacheDir st0 of
        (Inl err, st) \<Rightarrow> (None, st)
      | (Inr _, st) \<Rightarrow>
          (let cacheKey = getCacheKey plat url deviceType;
               metadataPath = getMetadataPath cacheKey
           in case readFile (fs st) metadataPath of
                Inl err \<Rightarrow> (None, st)
              | Inr metadataContent \<Rightarrow>
                  (case jsonParse plat metadataContent of
                     None \<Rightarrow> (None, st)
                   | Some metadata \<Rightarrow>
                       if isExpired now metadata
                       then (None, st\<lparr>fs := unlinkQuiet (unlinkQuiet (fs st) cacheKey) metadataPath\<rparr>)
                       else (case readFile (fs st) cacheKey of
                               Inr html \<Rightarrow> (Some html, st)
                             | Inl ENOENT \<Rightarrow> (None, st\<lparr>fs := unlinkQuiet (fs st) metadataPath\<rparr>)
                             | Inl _ \<Rightarrow> (None, st)))))"

text \<open>
  \<open>cache.set\<close>: both writes are issued; the result is \<open>true\<close> when both succeed.
\<close>

definition cache_set :: "platform \<Rightarrow> int \<Rightarrow> cache_state \<Rightarrow> string \<Rightarrow> string \<Rightarrow> string \<Rightarrow> int \<Rightarrow>
    bool \<times> cache_state" where
  "cache_set plat now st0 url html deviceType cacheTtl =
     (case ensureCacheDir st0 of
        (Inl err, st) \<Rightarrow> (False, st)
      | (Inr _, st) \<Rightarrow>
          (let cacheKey = getCacheKey plat url deviceType;
               metadataPath = getMetadataPath cacheKey;
               expires = now + cacheTtl * 1000;
               metadata = \<lparr>expiresAt = expires, m_url = url, m_deviceType = deviceType\<rparr>;
               w1 = writeFile (fs st) cacheKey html;
               f1 = (case w1 of Inr f \<Rightarrow> f | Inl _ \<Rightarrow> fs st);
               w2 = writeFile f1 metadataPath (jsonStringify plat metadata);
               f2 = (case w2 of Inr f \<Rightarrow> f | Inl _ \<Rightarrow> f1)
           in (succeeded w1 \<and> succeeded w2, st\<lparr>fs := f2\<rparr>)))"



section \<open>The renderer (src/renderer.ts)\<close>

text \<open>
  What the headless browser does during one render is the environment of that render:
  the outcome of every Playwright call, and for the waits the time they take
  (milliseconds), given the time-out passed to them.  A call either returns or throws an
  error with a message.  Closing a page or a context may also not return in time.
\<close>

datatype outcome = Done | Throws string

datatype close_outcome = Closed | CloseThrows string | CloseHangs

record browser_env =
  launchResult :: outcome
  newContextResult :: outcome
  newPageResult :: outcome
  routeResult :: outcome
  gotoResult :: "string \<Rightarrow> int \<Rightarrow> outcome \<times> int"
  waitForLoadResult :: "int \<Rightarrow> outcome \<times> int"
  networkIdleResult :: "nat \<Rightarrow> int \<Rightarrow> outcome \<times> int"
  waitForSelectorResult :: "string \<Rightarrow> int \<Rightarrow> outcome \<times> int"
  waitForFunctionResult :: "int \<Rightarrow> outcome \<times> int"
  contentResult :: "string + string"
  pageCloseResult :: close_outcome
  contextCloseResult :: close_outcome

record RenderConfig =
  rc_timeoutMs :: int
  rc_maxConcurrency :: int
  rc_rootSelector :: "string option"
  rc_htmlOptimizerOptions :: "HtmlOptimizerOptions option"
  rc_strategy :: "string option"

record renderer_state =
  activeRequests :: int
  browser :: bool

definition BROWSER_CLEANUP_TIMEOUT_MS :: int where
  "BROWSER_CLEANUP_TIMEOUT_MS = 5000"

definition launchBrowser :: "browser_env \<Rightarrow> renderer_state \<Rightarrow> (string + unit) \<times> renderer_state" where
  "launchBrowser env st =
     (if browser st then (Inr (), st)
      else (case launchResult env of
              Done \<Rightarrow> (Inr (), st\<lparr>browser := True\<rparr>)
            | Throws message \<Rightarrow>
                if strIncludes message ''Executable doesn't exist'' \<or> strIncludes message ''playwright''
                then (Inl ''Playwright browsers not installed. Run: npx playwright install chromium'', st)
                else (Inl message, st)))"

text \<open>The Playwright calls \<open>waitForReadiness\<close> makes, with the time-out given to each.\<close>

datatype pw_call =
    Goto string int
  | WaitForLoad int
  | WaitForNetworkIdle int
  | WaitForSelector string int
  | WaitForFunction int

definition remainingTimeout :: "int \<Rightarrow> int \<Rightarrow> int" where
  "remainingTimeout timeoutMs elapsed = max 1000 (timeoutMs - elapsed)"

text \<open>
  The loop over the root selectors: the first selector that is found ends it.  The
  result is \<open>rendered\<close>, the time elapsed and the calls made.
\<close>

fun trySelectors :: "browser_env \<Rightarrow> int \<Rightarrow> string list \<Rightarrow> int \<Rightarrow> bool \<times> int \<times> pw_call list" where
  "trySelectors env timeoutMs [] elapsed = (False, elapsed, [])"
| "trySelectors env timeoutMs (selector # rest) elapsed =
     (let budget = max 15000 (remainingTimeout timeoutMs elapsed);
          call = WaitForSelector (selector @ '' > *'') budget
      in case waitForSelectorResult env (selector @ '' > *'') budget of
           (Done, d) \<Rightarrow> (True, elapsed + d, [call])
         | (Throws _, d) \<Rightarrow>
             (case trySelectors env timeoutMs rest (elapsed + d) of
                (rendered, e, calls) \<Rightarrow> (rendered, e, call # calls)))"

text \<open>
  \<open>waitForReadiness\<close>: \<open>Inl message\<close> when it throws.  The steps after the first are each
  inside a \<open>try\<close> with an empty \<open>catch\<close>; an error of the first step reaches the outer
  \<open>catch\<close>, which rethrows it unless its message contains \<open>timeout\<close>.
\<close>

definition waitForReadiness :: "browser_env \<Rightarrow> string \<Rightarrow> RenderConfig \<Rightarrow> bool \<Rightarrow>
    (string + unit) \<times> pw_call list" where
  "waitForReadiness env url config alreadyNavigated =
     (let timeoutMs = rc_timeoutMs config;
          step1 = (if \<not> alreadyNavigated then Goto url timeoutMs
                   else WaitForLoad (remainingTimeout timeoutMs 0));
          r1 = (if \<not> alreadyNavigated then gotoResult env url timeoutMs
                else waitForLoadResult env (remainingTimeout timeoutMs 0))
      in case r1 of
           (Throws message, d1) \<Rightarrow>
             (if \<not> strIncludes message ''timeout'' then (Inl message, [step1])
              else (Inr (), [step1]))
         | (Done, d1) \<Rightarrow>
             (let b2 = min 15000 (remainingTimeout timeoutMs d1);
                  e2 = d1 + snd (networkIdleResult env 0 b2);
                  rootSelector = (case rc_rootSelector config of
                                    None \<Rightarrow> ''#root''
                                  | Some r \<Rightarrow> if r = [] then ''#root'' else r);
                  rootSelectors = [rootSelector, ''#app'', ''[data-reactroot]'', ''body > *''];
                  s3 = trySelectors env timeoutMs rootSelectors e2;
                  rendered = fst s3;
                  e3 = fst (snd s3);
                  b4 = max 10000 (remainingTimeout timeoutMs e3);
                  e4 = (if \<not> rendered then e3 + snd (waitForFunctionResult env b4) else e3);
                  calls4 = (if \<not> rendered then [WaitForFunction b4] else []);
                  b5 = min 10000 (remainingTimeout timeoutMs e4)
              in (Inr (), [step1, WaitForNetworkIdle b2] @ snd (snd s3) @ calls4
                          @ [WaitForNetworkIdle b5])))"

text \<open>
  \<open>render\<close> in three parts: the admission check with the increment of the counter, the
  \<open>try\<close> block, and the \<open>finally\<close> block.  The \<open>try\<close> block yields its result (\<open>Inl\<close> the
  message of the error it throws) and whether a page and a context were opened.
\<close>

definition renderAdmit :: "renderer_state \<Rightarrow> RenderConfig \<Rightarrow> string + renderer_state" where
  "renderAdmit st config =
     (let currentRequests = activeRequests st
      in if currentRequests \<ge> rc_maxConcurrency config then Inl ''Max concurrency limit reached''
         else Inr (st\<lparr>activeRequests := activeRequests st + 1\<rparr>))"

text \<open>
  The end of the \<open>try\<close> block of \<open>render\<close>: \<open>page.content()\<close>, and the optimizer unless the
  strategy is \<open>ssr\<close>.
\<close>

definition extractHtml :: "platform \<Rightarrow> browser_env \<Rightarrow> RenderConfig \<Rightarrow> string + string" where
  "extractHtml plat env config =
     (case contentResult env of
        Inl err \<Rightarrow> Inl err
      | Inr html \<Rightarrow>
          if rc_strategy config \<noteq> Some ''ssr''
          then Inr (optimizeHtmlForSEO plat html (rc_htmlOptimizerOptions config))
          else Inr html)"

definition renderBody :: "platform \<Rightarrow> browser_env \<Rightarrow> renderer_state \<Rightarrow> string \<Rightarrow> RenderConfig \<Rightarrow>
    string option \<Rightarrow> string option \<Rightarrow> (string + string) \<times> renderer_state \<times> bool \<times> bool" where
  "renderBody plat env st0 url config userAgent origin =
     (case launchBrowser env st0 of
        (Inl err, st) \<Rightarrow> (Inl err, st, False, False)
      | (Inr _, st) \<Rightarrow>
          (case newContextResult env of
             Throws err \<Rightarrow> (Inl err, st, False, False)
           | Done \<Rightarrow>
               (case newPageResult env of
                  Throws err \<Rightarrow> (Inl err, st, False, True)
                | Done \<Rightarrow>
                    (case routeResult env of
                       Throws err \<Rightarrow> (Inl err, st, True, True)
                     | Done \<Rightarrow>
                         (case fst (waitForReadiness env url config False) of
                            Inl err \<Rightarrow> (Inl err, st, True, True)
                          | Inr _ \<Rightarrow> (extractHtml plat env config, st, True, True))))))"

text \<open>
  The clean-up of the \<open>finally\<close> block races against a timer of
  \<open>BROWSER_CLEANUP_TIMEOUT_MS\<close>: it completes unless a \<open>close\<close> it waits for does not return.
\<close>

datatype cleanup = CleanupCompleted | CleanupTimedOut

definition renderCleanup :: "browser_env \<Rightarrow> bool \<Rightarrow> bool \<Rightarrow> cleanup" where
  "renderCleanup env page context =
     (if page \<and> pageCloseResult env = CloseHangs then CleanupTimedOut
      else if context \<and> contextCloseResult env = CloseHangs then CleanupTimedOut
      else CleanupCompleted)"

definition renderFinish :: "platform \<Rightarrow> browser_env \<Rightarrow> renderer_state \<Rightarrow> string \<Rightarrow> RenderConfig \<Rightarrow>
    string option \<Rightarrow> string option \<Rightarrow> (string + string) \<times> cleanup \<times> renderer_state" where
  "renderFinish plat env st url config userAgent origin =
     (case renderBody plat env st url config userAgent origin of
        (result, st1, page, context) \<Rightarrow>
          (let c = renderCleanup env page context
           in (result, c, st1\<lparr>activeRequests := activeRequests st1 - 1\<rparr>)))"

definition render :: "platform \<Rightarrow> browser_env \<Rightarrow> renderer_state \<Rightarrow> string \<Rightarrow> RenderConfig \<Rightarrow>
    string option \<Rightarrow> string option \<Rightarrow> (string + string) \<times> renderer_state" where
  "render plat env st url config userAgent origin =
     (case renderAdmit st config of
        Inl err \<Rightarrow> (Inl err, st)
      | Inr st1 \<Rightarrow>
          (case renderFinish plat env st1 url config userAgent origin of
             (result, c, st2) \<Rightarrow> (result, st2)))"

definition getActiveRequests :: "renderer_state \<Rightarrow> int" where
  "getActiveRequests st = activeRequests st"

text \<open>
  Renders overlap: between the admission of a job and its \<open>finally\<close> block other jobs are
  admitted and complete.  A schedule is a list of events; \<open>Admit j\<close> is the admission check
  of a new job \<open>j\<close>, and \<open>Complete j\<close> runs the rest of an admitted job \<open>j\<close> to the end of its
  \<open>finally\<close> block.  The system state is the renderer's state and the admitted jobs that
  have not completed.  \<open>run\<close> is \<open>None\<close> for a list that is not a schedule (a job admitted
  twice, or completed without being in flight).
\<close>

datatype event =
    Admit nat RenderConfig
  | Complete nat browser_env string RenderConfig "string option" "string option"

record system =
  rstate :: renderer_state
  inflight :: "nat list"

definition step :: "platform \<Rightarrow> system \<Rightarrow> event \<Rightarrow> system option" where
  "step plat sys ev =
     (case ev of
        Admit j config \<Rightarrow>
          (if j \<in> set (inflight sys) then None
           else (case renderAdmit (rstate sys) config of
                   Inl err \<Rightarrow> Some sys
                 | Inr st \<Rightarrow> Some \<lparr>rstate = st, inflight = j # inflight sys\<rparr>))
      | Complete j env url config userAgent origin \<Rightarrow>
          (if j \<notin> set (inflight sys) then None
           else (case renderFinish plat env (rstate sys) url config userAgent origin of
                   (result, c, st) \<Rightarrow>
                     Some \<lparr>rstate = st, inflight = removeAll j (inflight sys)\<rparr>)))"

fun run :: "platform \<Rightarrow> system \<Rightarrow> event list \<Rightarrow> system option" where
  "run plat sys [] = Some sys"
| "run plat sys (ev # evs) =
     (case step plat sys ev of None \<Rightarrow> None | Some sys' \<Rightarrow> run plat sys' evs)"

definition initialSystem :: system where
  "initialSystem = \<lparr>rstate = \<lparr>activeRequests = 0, browser = False\<rparr>, inflight = []\<rparr>"

section \<open>The server (src/index.ts)\<close>

text \<open>
  A request as the handlers read it: the headers \<open>origin\<close>, \<open>user-agent\<close>,
  \<open>x-renderx-internal\<close> and \<open>host\<close>, the path, the original URL and the protocol, the query
  parameters \<open>url\<close> and \<open>device\<close>, and the fields \<open>url\<close> and \<open>device\<close> of a JSON body.
\<close>

record request =
  r_origin :: "string option"
  r_userAgent :: "string option"
  r_internal :: "string option"
  r_host :: "string option"
  r_path :: string
  r_originalUrl :: string
  r_protocol :: string
  r_queryUrl :: "string option"
  r_queryDevice :: "string option"
  r_bodyUrl :: "string option"
  r_bodyDevice :: "string option"

text \<open>
  What a handler does with the response: it sends a file, sends HTML with headers, sends a
  JSON error with a status, redirects (status 302) with headers, sends \<open>{success}\<close>, calls
  \<open>next()\<close>, or throws without having answered.
\<close>

datatype response =
    SendFile string
  | SendHtml string "(string \<times> string) list"
  | SendError nat string
  | Redirect string "(string \<times> string) list"
  | SendJson bool
  | Next
  | Unhandled string

definition statusOf :: "response \<Rightarrow> nat option" where
  "statusOf r =
     (case r of
        SendFile _ \<Rightarrow> Some 200
      | SendHtml _ _ \<Rightarrow> Some 200
      | SendError code _ \<Rightarrow> Some code
      | Redirect _ _ \<Rightarrow> Some 302
      | SendJson _ \<Rightarrow> Some 200
      | Next \<Rightarrow> None
      | Unhandled _ \<Rightarrow> None)"

text \<open>The static files under \<open>./hosts\<close>, as \<open>fs.existsSync\<close> and \<open>fs.statSync\<close> see them.\<close>

datatype file_kind = NoEntry | IsFile | IsDirectory | IsOther

record server_env =
  globalConfig :: GlobalConfig
  hostFiles :: "string \<Rightarrow> file_kind"

definition existsSync :: "server_env \<Rightarrow> string \<Rightarrow> bool" where
  "existsSync senv p = (hostFiles senv p \<noteq> NoEntry)"

definition RENDERX_USER_AGENT :: string where
  "RENDERX_USER_AGENT = ''RenderX/1.0''"

text \<open>A header or parameter that is absent or empty is falsy.\<close>

definition truthy :: "string option \<Rightarrow> bool" where
  "truthy v = (case v of None \<Rightarrow> False | Some x \<Rightarrow> x \<noteq> [])"

definition isRenderXRequest :: "request \<Rightarrow> bool" where
  "isRenderXRequest req =
     strIncludes (toLowerCase (case r_userAgent req of None \<Rightarrow> [] | Some ua \<Rightarrow> ua)) ''renderx''"

definition isInternalRender :: "request \<Rightarrow> bool" where
  "isInternalRender req = (r_internal req = Some ''true'')"

definition isBotAgent :: "string list \<Rightarrow> request \<Rightarrow> bool" where
  "isBotAgent botList req =
     list_ex (\<lambda>bot. strIncludes
                (toLowerCase (case r_userAgent req of None \<Rightarrow> [] | Some ua \<Rightarrow> ua))
                (toLowerCase bot)) botList"

text \<open>\<open>req.headers.host?.split(':')[0] || ''\<close>\<close>

definition hostHeaderName :: "request \<Rightarrow> string" where
  "hostHeaderName req =
     (case r_host req of None \<Rightarrow> [] | Some h \<Rightarrow> hd (splitOn (CHR '':'') h))"

definition shouldRender :: "string \<Rightarrow> bool \<Rightarrow> bool \<Rightarrow> bool \<Rightarrow> bool \<Rightarrow> bool" where
  "shouldRender strat isBot isRenderX isDirectFile isInternal =
     (if isInternal then False
      else if isRenderX then False
      else if isDirectFile then False
      else if strat = ''csr'' then False
      else if strat = ''ssr'' then True
      else isBot)"

definition isValidOrigin :: "platform \<Rightarrow> GlobalConfig \<Rightarrow> string \<Rightarrow> bool" where
  "isValidOrigin plat config origin =
     (case newURL plat origin of
        None \<Rightarrow> False
      | Some originUrl \<Rightarrow> getHostConfig config (u_hostname originUrl) \<noteq> None)"


text \<open>A number in a template string (the port).\<close>

function showDigits :: "int \<Rightarrow> string" where
  "showDigits n =
     (if n < 10 then [char_of (48 + n)]
      else showDigits (n div 10) @ [char_of (48 + n mod 10)])"
  by pat_completeness auto
termination
  by (relation "measure nat") auto

definition showInt :: "int \<Rightarrow> string" where
  "showInt i = (if i < 0 then CHR ''-'' # showDigits (- i) else showDigits i)"

definition toRenderConfig :: "EffectiveConfig \<Rightarrow> RenderConfig" where
  "toRenderConfig effectiveConfig =
     \<lparr> rc_timeoutMs = e_timeoutMs effectiveConfig,
       rc_maxConcurrency = e_maxConcurrency effectiveConfig,
       rc_rootSelector = e_rootSelector effectiveConfig,
       rc_htmlOptimizerOptions = e_htmlOptimizerOptions effectiveConfig,
       rc_strategy = Some (e_renderingStrategy effectiveConfig) \<rparr>"

text \<open>
  The state of the server that the handlers change: the cache and the renderer.  A
  handler reads the clock when it looks the cache up (\<open>now\<close>) and again when it stores a
  render (\<open>nowSet\<close>).
\<close>

record server_state =
  cacheSt :: cache_state
  renderSt :: renderer_state

text \<open>
  \<open>renderPage\<close>: \<open>Some\<close> response when it has answered (the source returns \<open>true\<close>), \<open>None\<close>
  when the caller is to fall back to the static file.
\<close>

definition renderPage :: "platform \<Rightarrow> browser_env \<Rightarrow> int \<Rightarrow> int \<Rightarrow> server_state \<Rightarrow> string \<Rightarrow> string \<Rightarrow>
    string option \<Rightarrow> EffectiveConfig \<Rightarrow> response option \<times> server_state" where
  "renderPage plat env now nowSet st cacheKey localUrl origin effectiveConfig =
     (case cache_get plat now (cacheSt st) cacheKey ''desktop'' of
        (cachedHtml, c1) \<Rightarrow>
          if truthy cachedHtml
          then (Some (SendHtml (the cachedHtml) [(''Content-Type'', ''text/html; charset=utf-8'')]),
                st\<lparr>cacheSt := c1\<rparr>)
          else
            (case render plat env (renderSt st) localUrl (toRenderConfig effectiveConfig)
                    (Some RENDERX_USER_AGENT) origin of
               (Inl err, r1) \<Rightarrow> (None, st\<lparr>cacheSt := c1, renderSt := r1\<rparr>)
             | (Inr html, r1) \<Rightarrow>
                 if html \<noteq> [] then
                   (case cache_set plat nowSet c1 cacheKey html ''desktop'' (e_cacheTtl effectiveConfig) of
                      (ok, c2) \<Rightarrow>
                        (Some (SendHtml html [(''Content-Type'', ''text/html; charset=utf-8'')]),
                         st\<lparr>cacheSt := c2, renderSt := r1\<rparr>))
                 else (None, st\<lparr>cacheSt := c1, renderSt := r1\<rparr>)))"

text \<open>
  The main routing middleware decides first, from the request and the static files, what
  to do: answer at once, or try to render and fall back to a static \<open>index.html\<close>.
\<close>

datatype action =
    Respond response
  | RenderOrFile string string "string option" EffectiveConfig string

definition hostsPath :: "platform \<Rightarrow> string \<Rightarrow> string" where
  "hostsPath plat src = join [processCwd plat, ''./hosts'', src]"

text \<open>Serving a validated path: the file itself, or the \<open>index.html\<close> of a directory.\<close>

definition serveFileOrDirIndex :: "server_env \<Rightarrow> string option \<Rightarrow> response option" where
  "serveFileOrDirIndex senv validatedFilePath =
     (case validatedFilePath of
        None \<Rightarrow> None
      | Some p \<Rightarrow>
          if \<not> existsSync senv p then None
          else if hostFiles senv p = IsFile then Some (SendFile p)
          else if hostFiles senv p = IsDirectory then
            (let indexPath = join [p, ''index.html'']
             in if existsSync senv indexPath then Some (SendFile indexPath) else None)
          else None)"

text \<open>The loops over \<open>globalConfig.hosts\<close> of the internal-render branch.\<close>

fun tryHostsFileOrDir :: "platform \<Rightarrow> server_env \<Rightarrow> string \<Rightarrow> HostConfig option \<Rightarrow> HostConfig list \<Rightarrow>
    response option" where
  "tryHostsFileOrDir plat senv path target [] = None"
| "tryHostsFileOrDir plat senv path target (hostConfig # rest) =
     (if isActive hostConfig = Some False then tryHostsFileOrDir plat senv path target rest
      else if (case target of None \<Rightarrow> False | Some t \<Rightarrow> source hostConfig = source t)
      then tryHostsFileOrDir plat senv path target rest
      else (case serveFileOrDirIndex senv
                   (validatePath (processCwd plat) (hostsPath plat (source hostConfig)) path) of
              Some r \<Rightarrow> Some r
            | None \<Rightarrow> tryHostsFileOrDir plat senv path target rest))"

fun tryHostsIndex :: "platform \<Rightarrow> server_env \<Rightarrow> HostConfig list \<Rightarrow> response option" where
  "tryHostsIndex plat senv [] = None"
| "tryHostsIndex plat senv (hostConfig # rest) =
     (if isActive hostConfig = Some False then tryHostsIndex plat senv rest
      else (let indexPath = join [hostsPath plat (source hostConfig), ''index.html'']
            in if existsSync senv indexPath then Some (SendFile indexPath)
               else tryHostsIndex plat senv rest))"

text \<open>The loop of the branch for file requests without an \<open>Origin\<close>.\<close>

fun tryHostsFile :: "platform \<Rightarrow> server_env \<Rightarrow> string \<Rightarrow> HostConfig list \<Rightarrow> response option" where
  "tryHostsFile plat senv path [] = None"
| "tryHostsFile plat senv path (hostConfig # rest) =
     (if isActive hostConfig = Some False then tryHostsFile plat senv path rest
      else (case validatePath (processCwd plat) (hostsPath plat (source hostConfig)) path of
              None \<Rightarrow> tryHostsFile plat senv path rest
            | Some p \<Rightarrow>
                if existsSync senv p \<and> hostFiles senv p = IsFile then Some (SendFile p)
                else tryHostsFile plat senv path rest))"

definition internalRoute :: "platform \<Rightarrow> server_env \<Rightarrow> request \<Rightarrow> response" where
  "internalRoute plat senv req =
     (let config = globalConfig senv;
          isFileRequest = isFilePath (r_path req);
          fromOrigin =
            (if truthy (r_origin req) then
               (case newURL plat (the (r_origin req)) of
                  None \<Rightarrow> None
                | Some originUrl \<Rightarrow> getHostConfig config (u_hostname originUrl))
             else None);
          targetHostConfig =
            (case fromOrigin of
               Some t \<Rightarrow> Some t
             | None \<Rightarrow>
                 (let hostname = hostHeaderName req
                  in if hostname \<noteq> [] then getHostConfig config hostname else None));
          first =
            (case targetHostConfig of
               None \<Rightarrow> None
             | Some t \<Rightarrow>
                 if isActive t = Some False then None
                 else
                   (let sourcePath = hostsPath plat (source t)
                    in case serveFileOrDirIndex senv
                              (validatePath (processCwd plat) sourcePath (r_path req)) of
                         Some r \<Rightarrow> Some r
                       | None \<Rightarrow>
                           if \<not> isFileRequest then
                             (let indexPath = join [sourcePath, ''index.html'']
                              in if existsSync senv indexPath then Some (SendFile indexPath)
                                 else None)
                           else None))
      in case first of
           Some r \<Rightarrow> r
         | None \<Rightarrow>
             (case tryHostsFileOrDir plat senv (r_path req) targetHostConfig (g_hosts config) of
                Some r \<Rightarrow> r
              | None \<Rightarrow>
                  (case (if \<not> isFileRequest then tryHostsIndex plat senv (g_hosts config)
                         else None) of
                     Some r \<Rightarrow> r
                   | None \<Rightarrow> SendError 404 ''Not found'')))"

text \<open>The part of the middleware after the host has been found.\<close>

definition hostRoute :: "platform \<Rightarrow> server_env \<Rightarrow> request \<Rightarrow> string \<Rightarrow> HostConfig \<Rightarrow> action" where
  "hostRoute plat senv req originHostname hostConfig =
     (let config = globalConfig senv;
          origin = r_origin req;
          effectiveConfig = getEffectiveConfig config (Some originHostname);
          isBot = isBotAgent (e_bots effectiveConfig) req;
          sourcePath = join [processCwd plat, e_hostsDir effectiveConfig, source hostConfig];
          cacheKey = (if truthy origin then the origin @ r_originalUrl req
                      else r_protocol req @ ''://'' @ originHostname @ r_originalUrl req);
          localUrl = ''http://localhost:'' @ showInt (g_port config) @ r_originalUrl req;
          renderOrigin = (if truthy origin then origin else None);
          indexPath = join [sourcePath, ''index.html'']
      in if r_path req = ''/'' then
           (if existsSync senv indexPath then
              (if shouldRender (e_renderingStrategy effectiveConfig) isBot (isRenderXRequest req)
                    False (isInternalRender req)
               then RenderOrFile cacheKey localUrl renderOrigin effectiveConfig indexPath
               else Respond (SendFile indexPath))
            else Respond (SendError 404 ''Not found''))
         else
           (case serveFileOrDirIndex senv (validatePath (processCwd plat) sourcePath (r_path req)) of
              Some r \<Rightarrow> Respond r
            | None \<Rightarrow>
                if existsSync senv indexPath then
                  (let isDirectFile = isFilePath (r_path req)
                   in if shouldRender (e_renderingStrategy effectiveConfig) isBot
                           (isRenderXRequest req) isDirectFile (isInternalRender req)
                      then RenderOrFile cacheKey localUrl renderOrigin effectiveConfig indexPath
                      else Respond (SendFile indexPath))
                else Respond (SendError 404 ''Not found'')))"

definition mainRoute :: "platform \<Rightarrow> server_env \<Rightarrow> request \<Rightarrow> action" where
  "mainRoute plat senv req =
     (let config = globalConfig senv;
          origin = r_origin req;
          isFileRequest = isFilePath (r_path req)
      in if isInternalRender req then Respond (internalRoute plat senv req)
         else
           (case (if isFileRequest \<and> \<not> truthy origin
                  then tryHostsFile plat senv (r_path req) (g_hosts config) else None) of
              Some r \<Rightarrow> Respond r
            | None \<Rightarrow>
                (let named =
                       (if truthy origin then
                          (case newURL plat (the origin) of
                             None \<Rightarrow> Inl (SendError 400 ''Invalid Origin header format'')
                           | Some originUrl \<Rightarrow>
                               if \<not> isValidOrigin plat config (the origin)
                               then Inl (SendError 403 ''Invalid origin'')
                               else Inr (u_hostname originUrl))
                        else
                          (let originHostname = hostHeaderName req
                           in if originHostname = []
                              then Inl (SendError 400 ''Unable to determine hostname'')
                              else Inr originHostname))
                 in case named of
                      Inl r \<Rightarrow> Respond r
                    | Inr originHostname \<Rightarrow>
                        (case getHostConfig config originHostname of
                           None \<Rightarrow>
                             if \<not> truthy origin then Respond (SendError 403 ''Invalid host'')
                             else Respond Next
                         | Some hostConfig \<Rightarrow>
                             if isActive hostConfig = Some False
                             then Respond (SendError 503 ''Host is not active'')
                             else hostRoute plat senv req originHostname hostConfig))))"

definition mainMiddleware :: "platform \<Rightarrow> server_env \<Rightarrow> browser_env \<Rightarrow> int \<Rightarrow> int \<Rightarrow> server_state \<Rightarrow>
    request \<Rightarrow> response \<times> server_state" where
  "mainMiddleware plat senv env now nowSet st req =
     (case mainRoute plat senv req of
        Respond r \<Rightarrow> (r, st)
      | RenderOrFile cacheKey localUrl origin effectiveConfig indexPath \<Rightarrow>
          (case renderPage plat env now nowSet st cacheKey localUrl origin effectiveConfig of
             (Some r, st') \<Rightarrow> (r, st')
           | (None, st') \<Rightarrow> (SendFile indexPath, st')))"













section \<open>An example platform\<close>

text \<open>
  The closed examples below need one concrete platform.  Its functions are stand-ins that
  agree with the library functions on the inputs of the examples: the digest is the hex
  encoding of its input; the URL function covers \<open>http\<close> and \<open>https\<close> URLs with a plain host
  and URLs of another scheme with an opaque path; the metadata is written as three fields
  separated by commas; \<open>Number\<close> reads decimal digits; the HTML parser reads well-formed
  markup without character references, and the serializer writes it back.
\<close>

definition hexDigit :: "nat \<Rightarrow> char" where
  "hexDigit n = ''0123456789abcdef'' ! (n mod 16)"

definition exampleDigest :: "string \<Rightarrow> string" where
  "exampleDigest s =
     concat (map (\<lambda>c. [hexDigit ((of_char c :: nat) div 16), hexDigit ((of_char c :: nat) mod 16)]) s)"

definition isAlpha :: "char \<Rightarrow> bool" where
  "isAlpha c = (let n = (of_char c :: nat) in (65 \<le> n \<and> n \<le> 90) \<or> (97 \<le> n \<and> n \<le> 122))"

definition isDigit :: "char \<Rightarrow> bool" where
  "isDigit c = (let n = (of_char c :: nat) in 48 \<le> n \<and> n \<le> 57)"

definition exampleURL :: "string \<Rightarrow> URL option" where
  "exampleURL s =
     (let scheme = takeWhile (\<lambda>c. c \<noteq> CHR '':'') s;
          rest = drop (length scheme + 1) s;
          stop = (\<lambda>c. c = CHR ''?'' \<or> c = CHR ''#'')
      in if scheme = [] \<or> length scheme = length s \<or> \<not> isAlpha (hd scheme)
            \<or> \<not> list_all (\<lambda>c. isAlpha c \<or> isDigit c \<or> c \<in> set ''+-.'') scheme
         then None
         else if toLowerCase scheme = ''http'' \<or> toLowerCase scheme = ''https'' then
           (if \<not> startsWith rest ''//'' then None
            else
              let after = drop 2 rest;
                  authority = takeWhile (\<lambda>c. \<not> stop c \<and> c \<noteq> CHR ''/'') after;
                  tail = drop (length authority) after;
                  hostname = toLowerCase (takeWhile (\<lambda>c. c \<noteq> CHR '':'') authority);
                  path = takeWhile (\<lambda>c. \<not> stop c) tail;
                  query = takeWhile (\<lambda>c. c \<noteq> CHR ''#'') (drop (length path) tail)
              in if hostname = [] then None
                 else Some \<lparr> u_protocol = toLowerCase scheme @ '':'',
                             u_host = toLowerCase authority,
                             u_hostname = hostname,
                             u_pathname = (if path = [] then ''/'' else path),
                             u_search = (if query = ''?'' then [] else query) \<rparr>)
         else if startsWith rest ''/'' then None
         else
           (let path = takeWhile (\<lambda>c. \<not> stop c) rest;
                query = takeWhile (\<lambda>c. c \<noteq> CHR ''#'') (drop (length path) rest)
            in Some \<lparr> u_protocol = toLowerCase scheme @ '':'',
                        u_host = [],
                        u_hostname = [],
                        u_pathname = path,
                        u_search = (if query = ''?'' then [] else query) \<rparr>))"

fun readDigits :: "string \<Rightarrow> int \<Rightarrow> int" where
  "readDigits [] acc = acc"
| "readDigits (c # cs) acc = readDigits cs (10 * acc + ((of_char c :: int) - 48))"

definition exampleNumber :: "string \<Rightarrow> int option" where
  "exampleNumber s = (if s \<noteq> [] \<and> list_all isDigit s then Some (readDigits s 0) else None)"

definition exampleJsonStringify :: "CacheMetadata \<Rightarrow> string" where
  "exampleJsonStringify m = showInt (expiresAt m) @ '','' @ m_deviceType m @ '','' @ m_url m"

definition exampleJsonParse :: "string \<Rightarrow> CacheMetadata option" where
  "exampleJsonParse s =
     (case splitOn (CHR '','') s of
        e # d # u \<Rightarrow>
          (case exampleNumber e of
             None \<Rightarrow> None
           | Some n \<Rightarrow> Some \<lparr>expiresAt = n, m_url = joinWith (CHR '','') u, m_deviceType = d\<rparr>)
      | _ \<Rightarrow> None)"

definition voidTags :: "string list" where
  "voidTags = [''area'', ''base'', ''br'', ''col'', ''embed'', ''hr'', ''img'', ''input'', ''link'',
               ''meta'', ''param'', ''source'', ''track'', ''wbr'']"

fun exampleSerialize :: "node list \<Rightarrow> string" where
  "exampleSerialize [] = []"
| "exampleSerialize (Element t as cs # ns) =
     ''<'' @ t @ concat (map (\<lambda>(k, v). '' '' @ k @ ''='' @ [CHR 0x22] @ v @ [CHR 0x22]) as) @ ''>''
     @ (if t \<in> set voidTags then [] else exampleSerialize cs @ ''</'' @ t @ ''>'')
     @ exampleSerialize ns"
| "exampleSerialize (TextNode s # ns) = s @ exampleSerialize ns"
| "exampleSerialize (CommentNode c # ns) = ''<!--'' @ c @ ''-->'' @ exampleSerialize ns"
| "exampleSerialize (Doctype d # ns) = ''<!'' @ d @ ''>'' @ exampleSerialize ns"

datatype token =
    TOpen string "(string \<times> string) list"
  | TClose string
  | TText string
  | TComment string
  | TDoctype string

definition parseAttr :: "string \<Rightarrow> string \<times> string" where
  "parseAttr w =
     (let k = takeWhile (\<lambda>c. c \<noteq> CHR ''='') w;
          v = drop (length k + 1) w
      in (k, filter (\<lambda>c. c \<noteq> CHR 0x22) v))"

definition tagToken :: "string \<Rightarrow> token" where
  "tagToken inside =
     (if startsWith inside ''!--'' then TComment (take (length inside - 5) (drop 3 inside))
      else if startsWith inside ''!'' then TDoctype (drop 1 inside)
      else if startsWith inside ''/'' then TClose (drop 1 inside)
      else (case filter (\<lambda>w. w \<noteq> []) (splitOn (CHR '' '') inside) of
              [] \<Rightarrow> TText []
            | name # ws \<Rightarrow> TOpen name (map parseAttr ws)))"

definition pieceTokens :: "string \<Rightarrow> token list" where
  "pieceTokens q =
     (let inside = takeWhile (\<lambda>c. c \<noteq> CHR ''>'') q;
          after = drop (length inside + 1) q
      in tagToken inside # (if after = [] then [] else [TText after]))"

definition lexHtml :: "string \<Rightarrow> token list" where
  "lexHtml s =
     (case splitOn (CHR ''<'') s of
        [] \<Rightarrow> []
      | t0 # pieces \<Rightarrow> (if t0 = [] then [] else [TText t0]) @ concat (map pieceTokens pieces))"

text \<open>The tree is built with a stack of open elements; the bottom frame is the document.\<close>

fun addChild :: "node \<Rightarrow> (string \<times> (string \<times> string) list \<times> node list) list \<Rightarrow>
    (string \<times> (string \<times> string) list \<times> node list) list" where
  "addChild n [] = [([], [], [n])]"
| "addChild n ((t, as, cs) # frames) = (t, as, n # cs) # frames"

fun closeTop :: "(string \<times> (string \<times> string) list \<times> node list) list \<Rightarrow>
    (string \<times> (string \<times> string) list \<times> node list) list" where
  "closeTop ((t, as, cs) # f # frames) = addChild (Element t as (rev cs)) (f # frames)"
| "closeTop frames = frames"

fun closeAll :: "(string \<times> (string \<times> string) list \<times> node list) list \<Rightarrow> node list" where
  "closeAll [] = []"
| "closeAll [(t, as, cs)] = rev cs"
| "closeAll ((t, as, cs) # (t', as', cs') # frames) =
     closeAll ((t', as', Element t as (rev cs) # cs') # frames)"

fun buildTree :: "token list \<Rightarrow> (string \<times> (string \<times> string) list \<times> node list) list \<Rightarrow> node list" where
  "buildTree [] stack = closeAll stack"
| "buildTree (TOpen t as # ts) stack =
     (if t \<in> set voidTags then buildTree ts (addChild (Element t as []) stack)
      else buildTree ts ((t, as, []) # stack))"
| "buildTree (TClose t # ts) stack = buildTree ts (closeTop stack)"
| "buildTree (TText s # ts) stack = buildTree ts (addChild (TextNode s) stack)"
| "buildTree (TComment c # ts) stack = buildTree ts (addChild (CommentNode c) stack)"
| "buildTree (TDoctype d # ts) stack = buildTree ts (addChild (Doctype d) stack)"

definition exampleLoad :: "string \<Rightarrow> node list option" where
  "exampleLoad s = Some (buildTree (lexHtml s) [([], [], [])])"

definition examplePlatform :: platform where
  "examplePlatform =
     \<lparr> processCwd = ''/app'',
       envCacheDir = None,
       sha256Hex = exampleDigest,
       newURL = exampleURL,
       jsonParse = exampleJsonParse,
       jsonStringify = exampleJsonStringify,
       jsNumber = exampleNumber,
       cheerioLoad = exampleLoad,
       cheerioParseFragment = (\<lambda>s. [TextNode s]),
       cheerioHtml = exampleSerialize \<rparr>"

text \<open>
  An example server: two hosts (a wildcard and an exact name, the exact one with strategy
  \<open>ssr\<close>), their static files, a browser that renders a small page, and an empty cache.
\<close>

definition exampleHost :: "string \<Rightarrow> string \<Rightarrow> string option \<Rightarrow> HostConfig" where
  "exampleHost src pattern strat =
     \<lparr> source = src, host = pattern, isActive = None, h_timeoutMs = None,
       h_parallelRenders = None, h_bots = None, h_strategy = strat, h_rootSelector = None,
       h_htmlOptimizerOptions = None \<rparr>"

definition exampleConfig :: GlobalConfig where
  "exampleConfig =
     \<lparr> g_port = 8080, g_parallelRenders = 2, g_bots = [''Googlebot'', ''bingbot''],
       g_cacheCleanupInterval = Some 60, g_strategy = ''smart-ssr'',
       g_hosts = [exampleHost ''wild'' ''*.example'' None,
                  exampleHost ''app'' ''app.example'' (Some ''ssr'')],
       g_logs = Some ''ssr'', g_rootSelector = None, g_clearCacheOnStartup = None,
       g_htmlOptimizerOptions = None, g_timeoutMs = Some 10000, g_maxConcurrency = Some 10 \<rparr>"

definition exampleServer :: server_env where
  "exampleServer =
     \<lparr> globalConfig = exampleConfig,
       hostFiles = (\<lambda>p. if p = ''/app/hosts/app/index.html'' \<or> p = ''/app/hosts/wild/index.html''
                            \<or> p = ''/app/hosts/app/assets/index.js'' then IsFile
                         else if p = ''/app/hosts/app'' \<or> p = ''/app/hosts/wild''
                            \<or> p = ''/app/hosts/app/assets'' then IsDirectory
                         else NoEntry) \<rparr>"

definition exampleBrowser :: browser_env where
  "exampleBrowser =
     \<lparr> launchResult = Done, newContextResult = Done, newPageResult = Done, routeResult = Done,
       gotoResult = (\<lambda>url t. (Done, 120)),
       waitForLoadResult = (\<lambda>t. (Done, 0)),
       networkIdleResult = (\<lambda>i t. (Done, 500)),
       waitForSelectorResult = (\<lambda>sel t. (Done, 30)),
       waitForFunctionResult = (\<lambda>t. (Done, 100)),
       contentResult = Inr ''<html><head></head><body><div>Hello</div></body></html>'',
       pageCloseResult = Closed, contextCloseResult = Closed \<rparr>"

definition exampleState :: server_state where
  "exampleState =
     \<lparr> cacheSt = \<lparr>cacheDirInitialized = False,
                   fs = \<lparr>fs_dir = DirAbsent, fs_files = (\<lambda>p. Missing)\<rparr>\<rparr>,
       renderSt = \<lparr>activeRequests = 0, browser = False\<rparr> \<rparr>"

definition exampleRequest :: "string \<Rightarrow> string \<Rightarrow> string \<Rightarrow> request" where
  "exampleRequest origin ua path =
     \<lparr> r_origin = Some origin, r_userAgent = Some ua, r_internal = None,
       r_host = Some ''localhost:8080'', r_path = path, r_originalUrl = path,
       r_protocol = ''http'', r_queryUrl = None, r_queryDevice = None,
       r_bodyUrl = None, r_bodyDevice = None \<rparr>"

definition exampleRenderConfig :: "int \<Rightarrow> RenderConfig" where
  "exampleRenderConfig maxConcurrency =
     \<lparr> rc_timeoutMs = 10000, rc_maxConcurrency = maxConcurrency, rc_rootSelector = None,
       rc_htmlOptimizerOptions = None, rc_strategy = Some ''ssr'' \<rparr>"

text \<open>
  An example cache: an entry for \<open>(http://x.com/, desktop)\<close> that expires at time 2000, and a
  metadata file for \<open>(http://x.com/, mobile)\<close> whose HTML file is missing.
\<close>

definition exampleCacheFiles :: "string \<Rightarrow> fs_node" where
  "exampleCacheFiles p =
     (if p = getMetadataPath (getCacheKey examplePlatform ''http://x.com/'' ''desktop'')
      then Data ''2000,desktop,http://x.com/''
      else if p = getCacheKey examplePlatform ''http://x.com/'' ''desktop''
      then Data ''<html>hi</html>''
      else if p = getMetadataPath (getCacheKey examplePlatform ''http://x.com/'' ''mobile'')
      then Data ''2000,mobile,http://x.com/''
      else Missing)"

definition exampleCache :: cache_state where
  "exampleCache =
     \<lparr>cacheDirInitialized = True, fs = \<lparr>fs_dir = DirPresent, fs_files = exampleCacheFiles\<rparr>\<rparr>"



definition gotoTimeoutMessage :: "string \<Rightarrow> int \<Rightarrow> string" where
  "gotoTimeoutMessage url t =
     ''page.goto: Timeout '' @ showInt t @ ''ms exceeded.'' @ [CHR 0x0A]
     @ ''Call log:'' @ [CHR 0x0A]
     @ ''  - navigating to '' @ [CHR 0x22] @ url @ [CHR 0x22]
     @ '', waiting until '' @ [CHR 0x22] @ ''load'' @ [CHR 0x22] @ [CHR 0x0A]"

definition timingOutBrowser :: browser_env where
  "timingOutBrowser =
     exampleBrowser\<lparr>gotoResult := (\<lambda>url t. (Throws (gotoTimeoutMessage url t), t))\<rparr>"

text \<open>A browser in which every wait after the navigation runs into its time-out.\<close>

definition stallingBrowser :: browser_env where
  "stallingBrowser =
     exampleBrowser\<lparr>networkIdleResult := (\<lambda>i t. (Throws ''page.waitForLoadState: Timeout'', t)),
                    waitForSelectorResult := (\<lambda>sel t. (Throws ''page.waitForSelector: Timeout'', t)),
                    waitForFunctionResult := (\<lambda>t. (Throws ''page.waitForFunction: Timeout'', t))\<rparr>"

text \<open>A configuration with a single host whose pattern is the given one.\<close>

definition patternConfig :: "string \<Rightarrow> GlobalConfig" where
  "patternConfig pattern = exampleConfig\<lparr>g_hosts := [exampleHost ''app'' pattern None]\<rparr>"

section \<open>Properties: strings and paths\<close>

lemma splitOn_nonempty: "splitOn d s \<noteq> []"
  by (induction s) (auto split: list.splits)

lemma splitOn_append: "splitOn d (a @ d # b) = splitOn d a @ splitOn d b"
proof (induction a)
  case Nil
  then show ?case by simp
next
  case (Cons c a)
  have ne: "splitOn d a \<noteq> []" by (rule splitOn_nonempty)
  then obtain x xs where sp: "splitOn d a = x # xs" by (cases "splitOn d a") auto
  show ?case using Cons sp by simp
qed

lemma splitOn_no_sep: "s \<in> set (splitOn d p) \<Longrightarrow> d \<notin> set s"
proof (induction p arbitrary: s)
  case Nil
  then show ?case by simp
next
  case (Cons c p)
  obtain x xs where sp: "splitOn d p = x # xs"
    using splitOn_nonempty [of d p] by (cases "splitOn d p") auto
  show ?case
  proof (cases "c = d")
    case True
    with Cons show ?thesis by auto
  next
    case False
    with Cons.prems sp have "s = c # x \<or> s \<in> set xs" by simp
    then show ?thesis
    proof
      assume "s = c # x"
      moreover have "d \<notin> set x" using Cons.IH [of x] sp by simp
      ultimately show ?thesis using False by simp
    next
      assume "s \<in> set xs"
      then show ?thesis using Cons.IH [of s] sp by simp
    qed
  qed
qed

lemma normSegs_append:
  "normSegs a (xs @ ys) acc = normSegs a ys (normSegs a xs acc)"
  by (induction xs arbitrary: acc) auto

lemma normSegs_no_dotdot:
  "''..'' \<notin> set ys \<Longrightarrow>
   normSegs a ys acc = acc @ filter (\<lambda>s. s \<noteq> [] \<and> s \<noteq> ''.'') ys"
  by (induction ys arbitrary: acc) auto

lemma normSegs_False_set:
  "set (normSegs False xs acc) \<subseteq> set acc \<union> (set xs - {[], ''.'', ''..''})"
proof (induction xs arbitrary: acc)
  case Nil
  then show ?case by simp
next
  case (Cons s ss)
  have bl: "set (butlast acc) \<subseteq> set acc" by (meson in_set_butlastD subsetI)
  show ?case
    using Cons [of acc] Cons [of "butlast acc"] Cons [of "acc @ [s]"] bl
    by (auto split: if_splits)
qed

lemma startsWith_prefix: "startsWith s p = prefix p s"
  by (induction s p rule: startsWith.induct) auto

lemma strIncludes_iff: "strIncludes s p = (\<exists>a b. s = a @ p @ b)"
proof (induction s)
  case Nil
  then show ?case by auto
next
  case (Cons c cs)
  show ?case
  proof
    assume "strIncludes (c # cs) p"
    then consider "prefix p (c # cs)" | "strIncludes cs p" by (auto simp: startsWith_prefix)
    then show "\<exists>a b. c # cs = a @ p @ b"
    proof cases
      case 1
      then obtain b where "c # cs = p @ b" by (auto simp: prefix_def)
      then have "c # cs = [] @ p @ b" by simp
      then show ?thesis by blast
    next
      case 2
      then obtain a b where "cs = a @ p @ b" using Cons by auto
      then have "c # cs = (c # a) @ p @ b" by simp
      then show ?thesis by blast
    qed
  next
    assume "\<exists>a b. c # cs = a @ p @ b"
    then obtain a b where ab: "c # cs = a @ p @ b" by blast
    show "strIncludes (c # cs) p"
    proof (cases a)
      case Nil
      then have "prefix p (c # cs)" using ab by (simp add: prefix_def)
      then show ?thesis by (simp add: startsWith_prefix)
    next
      case (Cons x a')
      then have "cs = a' @ p @ b" using ab by simp
      then have "strIncludes cs p" using Cons.IH by blast
      then show ?thesis by simp
    qed
  qed
qed

lemma joinWith_splitOn: "joinWith d (splitOn d s) = s"
proof (induction s)
  case Nil
  then show ?case by simp
next
  case (Cons c s)
  obtain x xs where sp: "splitOn d s = x # xs"
    using splitOn_nonempty [of d s] by (cases "splitOn d s") auto
  show ?case
  proof (cases "c = d")
    case True
    then show ?thesis using Cons sp by simp
  next
    case False
    then show ?thesis using Cons sp by (cases xs) auto
  qed
qed

lemma joinWith_includes:
  "x \<in> set xs \<Longrightarrow> \<exists>a b. joinWith d xs = a @ x @ b"
proof (induction d xs rule: joinWith.induct)
  case (1 d)
  then show ?case by simp
next
  case (2 d y)
  then have "joinWith d [y] = [] @ x @ []" by simp
  then show ?case by blast
next
  case (3 d y z zs)
  show ?case
  proof (cases "x = y")
    case True
    then have "joinWith d (y # z # zs) = [] @ x @ (d # joinWith d (z # zs))" by simp
    then show ?thesis by blast
  next
    case False
    then have "x \<in> set (z # zs)" using 3 by simp
    then obtain a b where "joinWith d (z # zs) = a @ x @ b" using 3 by blast
    then have "joinWith d (y # z # zs) = (y @ d # a) @ x @ b" by simp
    then show ?thesis by blast
  qed
qed

lemma segment_included:
  "x \<in> set (splitOn d s) \<Longrightarrow> strIncludes s x"
  using joinWith_includes [of x "splitOn d s" d] joinWith_splitOn [of d s]
  by (simp add: strIncludes_iff)

lemma splitOn_joinWith:
  "xs \<noteq> [] \<Longrightarrow> \<forall>x \<in> set xs. d \<notin> set x \<Longrightarrow> splitOn d (joinWith d xs) = xs"
proof (induction d xs rule: joinWith.induct)
  case (1 d)
  then show ?case by simp
next
  case (2 d x)
  then show ?case by (induction x) (auto split: list.splits)
next
  case (3 d x y ys)
  have a: "splitOn d (x @ d # joinWith d (y # ys)) = splitOn d x @ splitOn d (joinWith d (y # ys))"
    by (rule splitOn_append)
  have b: "splitOn d x = [x]" using 3(2,3) by (induction x) (auto split: list.splits)
  show ?case using 3 a b by simp
qed

lemma resolveCollect_acc: "resolveCollect ps acc = resolveCollect ps [] @ acc"
proof (induction ps arbitrary: acc)
  case Nil
  then show ?case by simp
next
  case (Cons p ps)
  show ?case
    using Cons [of "p @ CHR ''/'' # acc"] Cons [of "p @ ''/''"] Cons [of acc] by simp
qed

lemma normalize_nonempty: "normalize p \<noteq> []"
  by (simp add: normalize_def Let_def)

text \<open>The base part collected by resolve, for an absolute working directory.\<close>

lemma resolveCollect_base:
  assumes "isAbsolute cwd"
  shows "\<exists>B'. resolveCollect [base, cwd] [] = B' @ ''/'' \<and> isAbsolute (B' @ ''/'')"
proof (cases "base = []")
  case True
  then show ?thesis using assms by (auto simp: isAbsolute_def)
next
  case False
  show ?thesis
  proof (cases "hd base = CHR ''/''")
    case True
    then show ?thesis using False by (auto simp: isAbsolute_def)
  next
    case False
    have "resolveCollect [base, cwd] [] = (cwd @ CHR ''/'' # base) @ ''/''"
      using False \<open>base \<noteq> []\<close> assms by (simp add: isAbsolute_def)
    moreover have "isAbsolute ((cwd @ CHR ''/'' # base) @ ''/'')"
      using assms by (simp add: isAbsolute_def)
    ultimately show ?thesis by blast
  qed
qed

lemma segments_join:
  assumes "\<forall>x \<in> set xs. x \<noteq> [] \<and> CHR ''/'' \<notin> set x"
  shows "segments (CHR ''/'' # joinWith (CHR ''/'') xs) = xs"
proof (cases "xs = []")
  case True
  then show ?thesis by (simp add: segments_def)
next
  case False
  have "splitOn (CHR ''/'') (joinWith (CHR ''/'') xs) = xs"
    using False assms by (simp add: splitOn_joinWith)
  moreover have "filter (\<lambda>s. s \<noteq> []) xs = xs" using assms by (simp add: filter_id_conv)
  ultimately show ?thesis by (simp add: segments_def)
qed

lemma normSegs_False_wf:
  assumes "x \<in> set (normSegs False (splitOn (CHR ''/'') p) [])"
  shows "x \<noteq> [] \<and> CHR ''/'' \<notin> set x \<and> x \<noteq> ''.'' \<and> x \<noteq> ''..''"
proof -
  have "x \<in> set (splitOn (CHR ''/'') p) - {[], ''.'', ''..''}"
    using assms normSegs_False_set [of "splitOn (CHR ''/'') p" "[]"] by auto
  then show ?thesis using splitOn_no_sep [of x "CHR ''/''" p] by auto
qed

lemma validatePath_Some:
  assumes cwd: "isAbsolute cwd"
    and v: "validatePath cwd basePath requestedPath = Some p"
  shows "isAbsolute p \<and> pathWithin (resolve cwd [basePath]) p
         \<and> ''..'' \<notin> set (segments p) \<and> ''.'' \<notin> set (segments p)"
proof -
  define rel where "rel = (if startsWith requestedPath ''/'' then drop 1 requestedPath else requestedPath)"
  define norm where "norm = normalize rel"
  have n1: "\<not> strIncludes norm ''..''" and n2: "\<not> isAbsolute norm"
    and p: "p = resolve cwd [basePath, norm]"
    using v unfolding validatePath_def rel_def norm_def Let_def
    by (auto split: if_splits)
  have n3: "norm \<noteq> []" unfolding norm_def by (rule normalize_nonempty)
  obtain B' where B: "resolveCollect [basePath, cwd] [] = B' @ ''/''"
    and Babs: "isAbsolute (B' @ ''/'')"
    using resolveCollect_base [OF cwd] by blast
  define SB where "SB = normSegs False (splitOn (CHR ''/'') B') []"
  define F where "F = filter (\<lambda>s. s \<noteq> [] \<and> s \<noteq> ''.'') (splitOn (CHR ''/'') norm)"
  have nodd: "''..'' \<notin> set (splitOn (CHR ''/'') norm)"
    using n1 segment_included [of "''..''" "CHR ''/''" norm] by blast
  have colP: "resolveCollect (rev [basePath, norm] @ [cwd]) [] = B' @ CHR ''/'' # norm @ ''/''"
    using n2 n3 B resolveCollect_acc [of "[basePath, cwd]" "norm @ ''/''"]
    by (simp add: isAbsolute_def)
  have colB: "resolveCollect (rev [basePath] @ [cwd]) [] = B' @ ''/''"
    using B by simp
  have absP: "isAbsolute (B' @ CHR ''/'' # norm @ ''/'')"
    using Babs by (cases B') (auto simp: isAbsolute_def)
  have splitP: "splitOn (CHR ''/'') (B' @ CHR ''/'' # norm @ ''/'')
                = splitOn (CHR ''/'') B' @ splitOn (CHR ''/'') norm @ [[]]"
    using splitOn_append [of "CHR ''/''" B' "norm @ ''/''"]
      splitOn_append [of "CHR ''/''" norm "[]"] by simp
  have splitB: "splitOn (CHR ''/'') (B' @ ''/'') = splitOn (CHR ''/'') B' @ [[]]"
    using splitOn_append [of "CHR ''/''" B' "[]"] by simp
  have segP: "normSegs False (splitOn (CHR ''/'') (B' @ CHR ''/'' # norm @ ''/'')) [] = SB @ F"
    unfolding splitP SB_def F_def
    using nodd by (simp add: normSegs_append normSegs_no_dotdot)
  have segB: "normSegs False (splitOn (CHR ''/'') (B' @ ''/'')) [] = SB"
    unfolding splitB SB_def by (simp add: normSegs_append)
  have rp: "p = CHR ''/'' # joinWith (CHR ''/'') (SB @ F)"
    unfolding p resolve_def using colP absP segP by (simp add: normalizeString_def)
  have rb: "resolve cwd [basePath] = CHR ''/'' # joinWith (CHR ''/'') SB"
    unfolding resolve_def using colB Babs segB by (simp add: normalizeString_def)
  have wfSB: "\<forall>x \<in> set SB. x \<noteq> [] \<and> CHR ''/'' \<notin> set x \<and> x \<noteq> ''.'' \<and> x \<noteq> ''..''"
    unfolding SB_def using normSegs_False_wf by blast
  have wfF: "\<forall>x \<in> set F. x \<noteq> [] \<and> CHR ''/'' \<notin> set x \<and> x \<noteq> ''.'' \<and> x \<noteq> ''..''"
    unfolding F_def using nodd splitOn_no_sep [of _ "CHR ''/''" norm] by auto
  have sp: "segments p = SB @ F"
    unfolding rp using wfSB wfF by (intro segments_join) auto
  have sb: "segments (resolve cwd [basePath]) = SB"
    unfolding rb using wfSB by (intro segments_join) auto
  show ?thesis
    using sp sb wfSB wfF rp by (auto simp: pathWithin_def isAbsolute_def)
qed

section \<open>Properties: the serving decision\<close>

lemma shouldRender_table:
  "shouldRender strat isBot isRX isFile isInt =
     (\<not> isInt \<and> \<not> isRX \<and> \<not> isFile \<and> (strat = ''ssr'' \<or> (strat \<noteq> ''csr'' \<and> isBot)))"
  by (auto simp: shouldRender_def)

lemma hostRoute_render:
  assumes "hostRoute plat senv req hn hc = RenderOrFile k l og ec ip"
  shows "ec = getEffectiveConfig (globalConfig senv) (Some hn)
         \<and> shouldRender (e_renderingStrategy ec) (isBotAgent (e_bots ec) req)
              (isRenderXRequest req) (isFilePath (r_path req)) (isInternalRender req)"
proof (cases "r_path req = ''/''")
  case True
  have nf: "\<not> isFilePath ''/''" by (simp add: isFilePath_def extname_def basenameOf_def)
  show ?thesis
    using assms True nf
    by (auto simp: hostRoute_def Let_def shouldRender_table split: if_splits)
next
  case False
  show ?thesis
    using assms False
    by (auto simp: hostRoute_def Let_def split: if_splits option.splits)
qed

lemma mainRoute_render:
  assumes "mainRoute plat senv req = RenderOrFile k l og ec ip"
  shows "shouldRender (e_renderingStrategy ec) (isBotAgent (e_bots ec) req)
              (isRenderXRequest req) (isFilePath (r_path req)) (isInternalRender req)"
proof -
  obtain hn hc where "hostRoute plat senv req hn hc = RenderOrFile k l og ec ip"
    using assms
    by (auto simp: mainRoute_def Let_def split: if_splits option.splits sum.splits)
  from hostRoute_render [OF this] show ?thesis by blast
qed

text \<open>
  Claim C4.  The serving decision is "do not render" for an internal render, for a
  user-agent that contains \<open>renderx\<close> in any case, and for a file path; otherwise it is
  "render" for strategy \<open>ssr\<close>, never for \<open>csr\<close>, and exactly for bots for \<open>smart-ssr\<close> (and for
  any other string, the \<open>default\<close> branch).  Every render the router dispatches satisfies
  this table; a request with the internal header, the RenderX user-agent or a file path
  is answered without a render, and leaves the cache and the renderer as they were.
\<close>

theorem serving_decision:
  "(shouldRender strat isBot isRX isFile isInt \<longleftrightarrow>
      \<not> isInt \<and> \<not> isRX \<and> \<not> isFile \<and> (strat = ''ssr'' \<or> (strat \<noteq> ''csr'' \<and> isBot)))
   \<and> (mainRoute plat senv req = RenderOrFile k l og ec ip \<longrightarrow>
        \<not> isInternalRender req \<and> \<not> isRenderXRequest req \<and> \<not> isFilePath (r_path req)
        \<and> (e_renderingStrategy ec = ''ssr''
           \<or> (e_renderingStrategy ec \<noteq> ''csr'' \<and> isBotAgent (e_bots ec) req)))
   \<and> (isInternalRender req \<or> isRenderXRequest req \<or> isFilePath (r_path req) \<longrightarrow>
        (\<exists>r. mainRoute plat senv req = Respond r
              \<and> mainMiddleware plat senv env now nowSet st req = (r, st)))"
proof (intro conjI impI)
  show "shouldRender strat isBot isRX isFile isInt \<longleftrightarrow>
      \<not> isInt \<and> \<not> isRX \<and> \<not> isFile \<and> (strat = ''ssr'' \<or> (strat \<noteq> ''csr'' \<and> isBot))"
    by (rule shouldRender_table)
next
  assume a: "mainRoute plat senv req = RenderOrFile k l og ec ip"
  from mainRoute_render [OF a]
  show "\<not> isInternalRender req" and "\<not> isRenderXRequest req" and "\<not> isFilePath (r_path req)"
    and "e_renderingStrategy ec = ''ssr''
           \<or> (e_renderingStrategy ec \<noteq> ''csr'' \<and> isBotAgent (e_bots ec) req)"
    by (simp_all add: shouldRender_table)
next
  assume b: "isInternalRender req \<or> isRenderXRequest req \<or> isFilePath (r_path req)"
  show "\<exists>r. mainRoute plat senv req = Respond r
              \<and> mainMiddleware plat senv env now nowSet st req = (r, st)"
  proof (cases "mainRoute plat senv req")
    case (Respond r)
    then show ?thesis by (simp add: mainMiddleware_def)
  next
    case (RenderOrFile k l og ec ip)
    from mainRoute_render [OF this] b show ?thesis by (simp add: shouldRender_table)
  qed
qed

theorem serving_decision_witness:
  "isRenderXRequest (exampleRequest ''https://app.example'' ''RenderX/1.0'' ''/'')
   \<and> mainMiddleware examplePlatform exampleServer exampleBrowser 1000 1200 exampleState
         (exampleRequest ''https://app.example'' ''RenderX/1.0'' ''/'')
       = (SendFile ''/app/hosts/app/index.html'', exampleState)
   \<and> (\<exists>k l og ec ip.
         mainRoute examplePlatform exampleServer
           (exampleRequest ''https://x.example'' ''Googlebot/2.1'' ''/about'')
         = RenderOrFile k l og ec ip \<and> e_renderingStrategy ec = ''smart-ssr''
         \<and> isBotAgent (e_bots ec) (exampleRequest ''https://x.example'' ''Googlebot/2.1'' ''/about''))"
proof -
  let ?rx = "exampleRequest ''https://app.example'' ''RenderX/1.0'' ''/''"
  let ?bot = "exampleRequest ''https://x.example'' ''Googlebot/2.1'' ''/about''"
  have h: "isRenderXRequest ?rx" by code_simp
  have m: "mainRoute examplePlatform exampleServer ?rx = Respond (SendFile ''/app/hosts/app/index.html'')"
    by code_simp
  from serving_decision [where req = ?rx and plat = examplePlatform and senv = exampleServer
      and env = exampleBrowser and now = 1000 and nowSet = 1200 and st = exampleState] h
  obtain r where "mainRoute examplePlatform exampleServer ?rx = Respond r"
    and "mainMiddleware examplePlatform exampleServer exampleBrowser 1000 1200 exampleState ?rx
         = (r, exampleState)"
    by blast
  with m have a: "mainMiddleware examplePlatform exampleServer exampleBrowser 1000 1200 exampleState ?rx
         = (SendFile ''/app/hosts/app/index.html'', exampleState)" by simp
  have "case mainRoute examplePlatform exampleServer ?bot of
          RenderOrFile k l og ec ip \<Rightarrow> e_renderingStrategy ec = ''smart-ssr''
        | Respond r \<Rightarrow> False"
    by code_simp
  then obtain k l og ec ip where
    d: "mainRoute examplePlatform exampleServer ?bot = RenderOrFile k l og ec ip"
    and s: "e_renderingStrategy ec = ''smart-ssr''"
    by (cases "mainRoute examplePlatform exampleServer ?bot") auto
  from serving_decision [where req = ?bot and plat = examplePlatform and senv = exampleServer
      and k = k and l = l and og = og and ec = ec and ip = ip] d s
  have "isBotAgent (e_bots ec) ?bot" by auto
  with h a d s show ?thesis by blast
qed

section \<open>Properties: the admission counter\<close>

lemma renderFinish_counter:
  "activeRequests (snd (snd (renderFinish plat env st url cfg ua og))) = activeRequests st - 1"
proof -
  have lb: "activeRequests (snd (launchBrowser env st)) = activeRequests st"
    by (auto simp: launchBrowser_def split: outcome.splits)
  have "activeRequests (fst (snd (renderBody plat env st url cfg ua og))) = activeRequests st"
    using lb
    by (auto simp: renderBody_def split: prod.splits sum.splits outcome.splits)
  then show ?thesis
    by (auto simp: renderFinish_def Let_def split: prod.splits)
qed

lemma renderAdmit_counter:
  "renderAdmit st cfg = Inr st' \<Longrightarrow> activeRequests st' = activeRequests st + 1
     \<and> activeRequests st < rc_maxConcurrency cfg"
  by (auto simp: renderAdmit_def Let_def split: if_splits)

lemma step_invariant:
  assumes "step plat sys ev = Some sys'"
    and "distinct (inflight sys)"
    and "activeRequests (rstate sys) = int (length (inflight sys))"
  shows "distinct (inflight sys') \<and> activeRequests (rstate sys') = int (length (inflight sys'))"
proof (cases ev)
  case (Admit j cfg)
  show ?thesis
  proof (cases "renderAdmit (rstate sys) cfg")
    case (Inl e)
    then show ?thesis using assms Admit by (auto simp: step_def split: if_splits)
  next
    case (Inr st1)
    from renderAdmit_counter [OF Inr] show ?thesis
      using assms Admit Inr by (auto simp: step_def split: if_splits)
  qed
next
  case (Complete j env url cfg ua og)
  have jin: "j \<in> set (inflight sys)" using assms(1) Complete by (auto simp: step_def split: if_splits)
  obtain result c st1 where rf: "renderFinish plat env (rstate sys) url cfg ua og = (result, c, st1)"
    by (cases "renderFinish plat env (rstate sys) url cfg ua og") auto
  have cnt: "activeRequests st1 = activeRequests (rstate sys) - 1"
    using renderFinish_counter [of plat env "rstate sys" url cfg ua og] rf by simp
  have len: "length (removeAll j (inflight sys)) = length (inflight sys) - 1"
    using jin assms(2) by (simp add: distinct_remove1_removeAll [symmetric] length_remove1)
  have pos: "length (inflight sys) > 0" using jin by (cases "inflight sys") auto
  have sys': "sys' = \<lparr>rstate = st1, inflight = removeAll j (inflight sys)\<rparr>"
    using assms(1) Complete jin rf by (simp add: step_def)
  have "int (length (inflight sys) - 1) = int (length (inflight sys)) - 1"
    using pos by (cases "inflight sys") simp_all
  then show ?thesis using sys' cnt len assms(2,3) by (simp add: distinct_removeAll)
qed

lemma run_invariant:
  assumes "run plat sys evs = Some sys'"
    and "distinct (inflight sys)"
    and "activeRequests (rstate sys) = int (length (inflight sys))"
  shows "distinct (inflight sys') \<and> activeRequests (rstate sys') = int (length (inflight sys'))"
  using assms
proof (induction evs arbitrary: sys)
  case Nil
  then show ?case by simp
next
  case (Cons ev evs)
  then obtain s1 where s1: "step plat sys ev = Some s1" and r: "run plat s1 evs = Some sys'"
    by (auto split: option.splits)
  from step_invariant [OF s1 Cons.prems(2,3)] Cons.IH [OF r] show ?case by blast
qed

text \<open>
  Claim C9.  The \<open>finally\<close> block of an admitted render lowers the counter of active
  requests by exactly one, whatever the \<open>try\<close> block and the clean-up did (success, an
  error at any step, a clean-up that timed out); the admission raised it by one; hence a
  whole render leaves it as it was, and after every schedule of overlapping renders the
  counter equals the number of renders in flight: it is never negative, and it is 0 when
  the last render has completed.
\<close>

theorem counter_released_once:
  "activeRequests (snd (snd (renderFinish plat env st url cfg ua og))) = activeRequests st - 1
   \<and> (renderAdmit st cfg = Inr st1 \<longrightarrow> activeRequests st1 = activeRequests st + 1)
   \<and> activeRequests (snd (render plat env st url cfg ua og)) = activeRequests st
   \<and> (run plat initialSystem evs = Some sys \<longrightarrow>
        0 \<le> activeRequests (rstate sys)
        \<and> activeRequests (rstate sys) = int (length (inflight sys))
        \<and> (inflight sys = [] \<longrightarrow> activeRequests (rstate sys) = 0))"
proof (intro conjI impI)
  show "activeRequests (snd (snd (renderFinish plat env st url cfg ua og))) = activeRequests st - 1"
    by (rule renderFinish_counter)
next
  assume "renderAdmit st cfg = Inr st1"
  then show "activeRequests st1 = activeRequests st + 1" using renderAdmit_counter by blast
next
  show "activeRequests (snd (render plat env st url cfg ua og)) = activeRequests st"
  proof (cases "renderAdmit st cfg")
    case (Inl e)
    then show ?thesis by (simp add: render_def)
  next
    case (Inr s1)
    have "activeRequests (snd (snd (renderFinish plat env s1 url cfg ua og))) = activeRequests s1 - 1"
      by (rule renderFinish_counter)
    with renderAdmit_counter [OF Inr] Inr show ?thesis
      by (auto simp: render_def split: prod.splits)
  qed
next
  assume r: "run plat initialSystem evs = Some sys"
  have inv: "distinct (inflight sys) \<and> activeRequests (rstate sys) = int (length (inflight sys))"
    by (rule run_invariant [OF r]) (simp_all add: initialSystem_def)
  then show "0 \<le> activeRequests (rstate sys)" by simp
  from inv show "activeRequests (rstate sys) = int (length (inflight sys))" by simp
  assume "inflight sys = []"
  with inv show "activeRequests (rstate sys) = 0" by simp
qed

theorem counter_released_once_witness:
  "renderAdmit \<lparr>activeRequests = 0, browser = False\<rparr> (exampleRenderConfig 1)
     = Inr \<lparr>activeRequests = 1, browser = False\<rparr>
   \<and> run examplePlatform initialSystem
         [Admit 1 (exampleRenderConfig 1), Admit 2 (exampleRenderConfig 1),
          Complete 1 (exampleBrowser\<lparr>gotoResult := (\<lambda>u t. (Throws ''net::ERR_FAILED'', 5)),
                                       pageCloseResult := CloseHangs\<rparr>)
            ''http://localhost:8080/'' (exampleRenderConfig 1) None None]
       = Some \<lparr>rstate = \<lparr>activeRequests = 0, browser = True\<rparr>, inflight = []\<rparr>
   \<and> activeRequests \<lparr>activeRequests = 0, browser = True\<rparr> = 0"
proof -
  have a: "renderAdmit \<lparr>activeRequests = 0, browser = False\<rparr> (exampleRenderConfig 1)
     = Inr \<lparr>activeRequests = 1, browser = False\<rparr>"
    by code_simp
  have r: "run examplePlatform initialSystem
         [Admit 1 (exampleRenderConfig 1), Admit 2 (exampleRenderConfig 1),
          Complete 1 (exampleBrowser\<lparr>gotoResult := (\<lambda>u t. (Throws ''net::ERR_FAILED'', 5)),
                                       pageCloseResult := CloseHangs\<rparr>)
            ''http://localhost:8080/'' (exampleRenderConfig 1) None None]
       = Some \<lparr>rstate = \<lparr>activeRequests = 0, browser = True\<rparr>, inflight = []\<rparr>"
    by code_simp
  from counter_released_once [where plat = examplePlatform
      and sys = "\<lparr>rstate = \<lparr>activeRequests = 0, browser = True\<rparr>, inflight = []\<rparr>"
      and evs = "[Admit 1 (exampleRenderConfig 1), Admit 2 (exampleRenderConfig 1),
          Complete 1 (exampleBrowser\<lparr>gotoResult := (\<lambda>u t. (Throws ''net::ERR_FAILED'', 5)),
                                       pageCloseResult := CloseHangs\<rparr>)
            ''http://localhost:8080/'' (exampleRenderConfig 1) None None]"] r
  have "activeRequests \<lparr>activeRequests = 0, browser = True\<rparr> = 0" by simp
  with a r show ?thesis by blast
qed

section \<open>Properties: the cache\<close>

lemma ensureCacheDir_fail:
  "ensureCacheDir st = (Inl e, st') \<Longrightarrow> st' = st \<and> readFile (fs st) p = Inl ENOENT"
  by (auto simp: ensureCacheDir_def mkdirRecursive_def readFile_def
      split: if_splits dir_status.splits sum.splits)

lemma ensureCacheDir_ok:
  "ensureCacheDir st = (Inr u, st') \<Longrightarrow> readFile (fs st') p = readFile (fs st) p"
  by (auto simp: ensureCacheDir_def mkdirRecursive_def readFile_def
      split: if_splits dir_status.splits sum.splits)

lemma readFile_unlinkQuiet:
  "readFile (unlinkQuiet f p) q = (if q = p then Inl ENOENT else readFile f q)"
  by (auto simp: readFile_def unlinkQuiet_def)

lemma cache_get_hit:
  "fst (cache_get plat now st url deviceType) = Some html \<longleftrightarrow>
     (\<exists>content metadata.
        readFile (fs st) (getMetadataPath (getCacheKey plat url deviceType)) = Inr content
        \<and> jsonParse plat content = Some metadata
        \<and> now \<le> expiresAt metadata
        \<and> readFile (fs st) (getCacheKey plat url deviceType) = Inr html)"
proof (cases "ensureCacheDir st")
  case (Pair r st1)
  show ?thesis
  proof (cases r)
    case (Inl e)
    with Pair ensureCacheDir_fail [of st e st1] show ?thesis
      by (auto simp: cache_get_def)
  next
    case (Inr u)
    with Pair have rd: "\<And>p. readFile (fs st1) p = readFile (fs st) p"
      using ensureCacheDir_ok by blast
    show ?thesis
      using Pair Inr
      by (auto simp: cache_get_def Let_def rd isExpired_def
          split: sum.splits option.splits fs_error.splits)
  qed
qed

lemma cache_get_expired:
  assumes "readFile (fs st) (getMetadataPath (getCacheKey plat url deviceType)) = Inr content"
    and "jsonParse plat content = Some metadata"
    and "expiresAt metadata < now"
  shows "fst (cache_get plat now st url deviceType) = None
         \<and> readFile (fs (snd (cache_get plat now st url deviceType))) (getCacheKey plat url deviceType)
             = Inl ENOENT
         \<and> readFile (fs (snd (cache_get plat now st url deviceType)))
             (getMetadataPath (getCacheKey plat url deviceType)) = Inl ENOENT"
proof (cases "ensureCacheDir st")
  case (Pair r st1)
  show ?thesis
  proof (cases r)
    case (Inl e)
    with Pair ensureCacheDir_fail [of st e st1] assms show ?thesis by auto
  next
    case (Inr u)
    with Pair have rd: "\<And>p. readFile (fs st1) p = readFile (fs st) p"
      using ensureCacheDir_ok by blast
    show ?thesis
      using Pair Inr assms
      by (auto simp: cache_get_def Let_def rd isExpired_def readFile_unlinkQuiet)
  qed
qed

lemma cache_get_dangling:
  assumes "readFile (fs st) (getMetadataPath (getCacheKey plat url deviceType)) = Inr content"
    and "jsonParse plat content = Some metadata"
    and "now \<le> expiresAt metadata"
    and "readFile (fs st) (getCacheKey plat url deviceType) = Inl ENOENT"
  shows "fst (cache_get plat now st url deviceType) = None
         \<and> readFile (fs (snd (cache_get plat now st url deviceType)))
             (getMetadataPath (getCacheKey plat url deviceType)) = Inl ENOENT"
proof (cases "ensureCacheDir st")
  case (Pair r st1)
  show ?thesis
  proof (cases r)
    case (Inl e)
    with Pair ensureCacheDir_fail [of st e st1] assms show ?thesis by auto
  next
    case (Inr u)
    with Pair have rd: "\<And>p. readFile (fs st1) p = readFile (fs st) p"
      using ensureCacheDir_ok by blast
    show ?thesis
      using Pair Inr assms
      by (auto simp: cache_get_def Let_def rd isExpired_def readFile_unlinkQuiet)
  qed
qed

lemma cache_get_other:
  assumes "(\<exists>e. readFile (fs st) (getMetadataPath (getCacheKey plat url deviceType)) = Inl e)
     \<or> (\<exists>content. readFile (fs st) (getMetadataPath (getCacheKey plat url deviceType)) = Inr content
            \<and> (jsonParse plat content = None
               \<or> (\<exists>metadata. jsonParse plat content = Some metadata \<and> now \<le> expiresAt metadata
                    \<and> readFile (fs st) (getCacheKey plat url deviceType) = Inl EACCES)))"
  shows "fst (cache_get plat now st url deviceType) = None
         \<and> readFile (fs (snd (cache_get plat now st url deviceType))) p = readFile (fs st) p"
proof (cases "ensureCacheDir st")
  case (Pair r st1)
  show ?thesis
  proof (cases r)
    case (Inl e)
    with Pair ensureCacheDir_fail [of st e st1] show ?thesis
      by (auto simp: cache_get_def)
  next
    case (Inr u)
    with Pair have rd: "\<And>p. readFile (fs st1) p = readFile (fs st) p"
      using ensureCacheDir_ok by blast
    show ?thesis
      using Pair Inr assms
      by (auto simp: cache_get_def Let_def rd isExpired_def readFile_unlinkQuiet
          split: sum.splits option.splits)
  qed
qed

text \<open>
  Claim C7.  \<open>cache.get\<close> returns the stored HTML exactly when the metadata file is read,
  parses, \<open>now \<le> expiresAt\<close> holds and the HTML file is read.  When the entry is found
  expired, both files are gone afterwards and the result is a miss; when the HTML file is
  missing behind live metadata, the metadata file is gone afterwards and the result is a
  miss; in every other case of a failed read or parse the result is a miss and the files
  are as before.  The result is always a value: no error leaves \<open>cache.get\<close>.
\<close>

theorem cache_get_contract:
  "(fst (cache_get plat now st url deviceType) = Some html \<longleftrightarrow>
      (\<exists>c m. readFile (fs st) (getMetadataPath (getCacheKey plat url deviceType)) = Inr c
             \<and> jsonParse plat c = Some m \<and> now \<le> expiresAt m
             \<and> readFile (fs st) (getCacheKey plat url deviceType) = Inr html))
   \<and> (readFile (fs st) (getMetadataPath (getCacheKey plat url deviceType)) = Inr content
        \<and> jsonParse plat content = Some metadata \<and> expiresAt metadata < now \<longrightarrow>
       fst (cache_get plat now st url deviceType) = None
       \<and> readFile (fs (snd (cache_get plat now st url deviceType)))
            (getCacheKey plat url deviceType) = Inl ENOENT
       \<and> readFile (fs (snd (cache_get plat now st url deviceType)))
            (getMetadataPath (getCacheKey plat url deviceType)) = Inl ENOENT)
   \<and> (readFile (fs st) (getMetadataPath (getCacheKey plat url deviceType)) = Inr content
        \<and> jsonParse plat content = Some metadata \<and> now \<le> expiresAt metadata
        \<and> readFile (fs st) (getCacheKey plat url deviceType) = Inl ENOENT \<longrightarrow>
       fst (cache_get plat now st url deviceType) = None
       \<and> readFile (fs (snd (cache_get plat now st url deviceType)))
            (getMetadataPath (getCacheKey plat url deviceType)) = Inl ENOENT)
   \<and> ((\<exists>e. readFile (fs st) (getMetadataPath (getCacheKey plat url deviceType)) = Inl e)
        \<or> (\<exists>c. readFile (fs st) (getMetadataPath (getCacheKey plat url deviceType)) = Inr c
              \<and> (jsonParse plat c = None
                 \<or> (\<exists>m. jsonParse plat c = Some m \<and> now \<le> expiresAt m
                       \<and> readFile (fs st) (getCacheKey plat url deviceType) = Inl EACCES))) \<longrightarrow>
       fst (cache_get plat now st url deviceType) = None
       \<and> (\<forall>p. readFile (fs (snd (cache_get plat now st url deviceType))) p = readFile (fs st) p))"
proof (intro conjI impI)
  show "fst (cache_get plat now st url deviceType) = Some html \<longleftrightarrow>
      (\<exists>c m. readFile (fs st) (getMetadataPath (getCacheKey plat url deviceType)) = Inr c
             \<and> jsonParse plat c = Some m \<and> now \<le> expiresAt m
             \<and> readFile (fs st) (getCacheKey plat url deviceType) = Inr html)"
    by (rule cache_get_hit)
next
  assume "readFile (fs st) (getMetadataPath (getCacheKey plat url deviceType)) = Inr content
        \<and> jsonParse plat content = Some metadata \<and> expiresAt metadata < now"
  then have e: "fst (cache_get plat now st url deviceType) = None
         \<and> readFile (fs (snd (cache_get plat now st url deviceType))) (getCacheKey plat url deviceType)
             = Inl ENOENT
         \<and> readFile (fs (snd (cache_get plat now st url deviceType)))
             (getMetadataPath (getCacheKey plat url deviceType)) = Inl ENOENT"
    using cache_get_expired by blast
  from e show "fst (cache_get plat now st url deviceType) = None" by simp
  from e show "readFile (fs (snd (cache_get plat now st url deviceType)))
            (getCacheKey plat url deviceType) = Inl ENOENT" by simp
  from e show "readFile (fs (snd (cache_get plat now st url deviceType)))
            (getMetadataPath (getCacheKey plat url deviceType)) = Inl ENOENT" by simp
next
  assume "readFile (fs st) (getMetadataPath (getCacheKey plat url deviceType)) = Inr content
        \<and> jsonParse plat content = Some metadata \<and> now \<le> expiresAt metadata
        \<and> readFile (fs st) (getCacheKey plat url deviceType) = Inl ENOENT"
  then have d: "fst (cache_get plat now st url deviceType) = None
         \<and> readFile (fs (snd (cache_get plat now st url deviceType)))
             (getMetadataPath (getCacheKey plat url deviceType)) = Inl ENOENT"
    using cache_get_dangling by blast
  from d show "fst (cache_get plat now st url deviceType) = None" by simp
  from d show "readFile (fs (snd (cache_get plat now st url deviceType)))
            (getMetadataPath (getCacheKey plat url deviceType)) = Inl ENOENT" by simp
next
  assume a: "(\<exists>e. readFile (fs st) (getMetadataPath (getCacheKey plat url deviceType)) = Inl e)
        \<or> (\<exists>c. readFile (fs st) (getMetadataPath (getCacheKey plat url deviceType)) = Inr c
              \<and> (jsonParse plat c = None
                 \<or> (\<exists>m. jsonParse plat c = Some m \<and> now \<le> expiresAt m
                       \<and> readFile (fs st) (getCacheKey plat url deviceType) = Inl EACCES)))"
  from cache_get_other [OF a] show "fst (cache_get plat now st url deviceType) = None" by simp
  from cache_get_other [OF a]
  show "\<forall>p. readFile (fs (snd (cache_get plat now st url deviceType))) p = readFile (fs st) p"
    by simp
qed

theorem cache_get_contract_witness:
  "fst (cache_get examplePlatform 1000 exampleCache ''http://x.com/'' ''desktop'') = Some ''<html>hi</html>''
   \<and> fst (cache_get examplePlatform 3000 exampleCache ''http://x.com/'' ''desktop'') = None
   \<and> readFile (fs (snd (cache_get examplePlatform 3000 exampleCache ''http://x.com/'' ''desktop'')))
        (getCacheKey examplePlatform ''http://x.com/'' ''desktop'') = Inl ENOENT
   \<and> readFile (fs exampleCache) (getCacheKey examplePlatform ''http://x.com/'' ''mobile'') = Inl ENOENT
   \<and> fst (cache_get examplePlatform 1000 exampleCache ''http://x.com/'' ''mobile'') = None
   \<and> readFile (fs (snd (cache_get examplePlatform 1000 exampleCache ''http://x.com/'' ''mobile'')))
        (getMetadataPath (getCacheKey examplePlatform ''http://x.com/'' ''mobile'')) = Inl ENOENT
   \<and> readFile (fs exampleCache) (getMetadataPath (getCacheKey examplePlatform ''http://x.com/'' ''tablet''))
        = Inl ENOENT
   \<and> fst (cache_get examplePlatform 1000 exampleCache ''http://x.com/'' ''tablet'') = None"
proof -
  let ?m = "\<lambda>d. \<lparr>expiresAt = 2000, m_url = ''http://x.com/'', m_deviceType = d\<rparr>"
  have r1: "readFile (fs exampleCache) (getMetadataPath (getCacheKey examplePlatform ''http://x.com/'' ''desktop''))
            = Inr ''2000,desktop,http://x.com/''" by code_simp
  have p1: "jsonParse examplePlatform ''2000,desktop,http://x.com/'' = Some (?m ''desktop'')"
    by code_simp
  have h1: "readFile (fs exampleCache) (getCacheKey examplePlatform ''http://x.com/'' ''desktop'')
            = Inr ''<html>hi</html>''" by code_simp
  have r2: "readFile (fs exampleCache) (getMetadataPath (getCacheKey examplePlatform ''http://x.com/'' ''mobile''))
            = Inr ''2000,mobile,http://x.com/''" by code_simp
  have p2: "jsonParse examplePlatform ''2000,mobile,http://x.com/'' = Some (?m ''mobile'')"
    by code_simp
  have h2: "readFile (fs exampleCache) (getCacheKey examplePlatform ''http://x.com/'' ''mobile'')
            = Inl ENOENT" by code_simp
  have r3: "readFile (fs exampleCache) (getMetadataPath (getCacheKey examplePlatform ''http://x.com/'' ''tablet''))
            = Inl ENOENT" by code_simp
  have a: "fst (cache_get examplePlatform 1000 exampleCache ''http://x.com/'' ''desktop'') = Some ''<html>hi</html>''"
    using cache_get_contract [where plat = examplePlatform and now = 1000 and st = exampleCache
        and url = "''http://x.com/''" and deviceType = "''desktop''" and html = "''<html>hi</html>''"]
      r1 p1 h1 by auto
  have b: "fst (cache_get examplePlatform 3000 exampleCache ''http://x.com/'' ''desktop'') = None
     \<and> readFile (fs (snd (cache_get examplePlatform 3000 exampleCache ''http://x.com/'' ''desktop'')))
        (getCacheKey examplePlatform ''http://x.com/'' ''desktop'') = Inl ENOENT"
    using cache_get_contract [where plat = examplePlatform and now = 3000 and st = exampleCache
        and url = "''http://x.com/''" and deviceType = "''desktop''"
        and content = "''2000,desktop,http://x.com/''" and metadata = "?m ''desktop''"]
      r1 p1 by simp
  have c: "fst (cache_get examplePlatform 1000 exampleCache ''http://x.com/'' ''mobile'') = None
     \<and> readFile (fs (snd (cache_get examplePlatform 1000 exampleCache ''http://x.com/'' ''mobile'')))
        (getMetadataPath (getCacheKey examplePlatform ''http://x.com/'' ''mobile'')) = Inl ENOENT"
    using cache_get_contract [where plat = examplePlatform and now = 1000 and st = exampleCache
        and url = "''http://x.com/''" and deviceType = "''mobile''"
        and content = "''2000,mobile,http://x.com/''" and metadata = "?m ''mobile''"]
      r2 p2 h2 by simp
  have d: "fst (cache_get examplePlatform 1000 exampleCache ''http://x.com/'' ''tablet'') = None"
    using cache_get_contract [where plat = examplePlatform and now = 1000 and st = exampleCache
        and url = "''http://x.com/''" and deviceType = "''tablet''"]
      r3 by blast
  from a b c d h2 r3 show ?thesis by blast
qed

section \<open>Properties: the cache key\<close>

lemma takeWhile_colon:
  "CHR '':'' \<notin> set d \<Longrightarrow> takeWhile (\<lambda>c. c \<noteq> CHR '':'') (d @ CHR '':'' # u) = d"
  by (induction d) auto

lemma cacheKeyInput_same_device:
  "(cacheKeyInput url d = cacheKeyInput url' d) = (url = url')"
  by (simp add: cacheKeyInput_def)

lemma cacheKeyInput_same_url:
  "(cacheKeyInput url d = cacheKeyInput url d') = (d = d')"
proof -
  have "(d @ (CHR '':'' # url) = d' @ (CHR '':'' # url)) = (d = d')" by (rule append_same_eq)
  then show ?thesis by (simp add: cacheKeyInput_def)
qed

lemma cacheKeyInput_no_colon:
  assumes "CHR '':'' \<notin> set d" and "CHR '':'' \<notin> set d'"
  shows "(cacheKeyInput url d = cacheKeyInput url' d') = (url = url' \<and> d = d')"
proof
  assume e: "cacheKeyInput url d = cacheKeyInput url' d'"
  then have "takeWhile (\<lambda>c. c \<noteq> CHR '':'') (d @ CHR '':'' # url)
             = takeWhile (\<lambda>c. c \<noteq> CHR '':'') (d' @ CHR '':'' # url')"
    by (simp add: cacheKeyInput_def)
  then have "d = d'" using assms by (simp add: takeWhile_colon)
  with e show "url = url' \<and> d = d'" by (simp add: cacheKeyInput_def)
next
  assume "url = url' \<and> d = d'"
  then show "cacheKeyInput url d = cacheKeyInput url' d'" by simp
qed

text \<open>
  Claim C1, as stated, fails: the pairs \<open>(http://x.com/, desktop:a)\<close> and
  \<open>(a:http://x.com/, desktop)\<close> differ in both components, yet the string that is hashed is
  \<open>desktop:a:http://x.com/\<close> for both, so their cache keys are equal (whatever the digest
  function is).
\<close>

theorem cache_digest_collision:
  "''http://x.com/'' \<noteq> ''a:http://x.com/'' \<and> ''desktop:a'' \<noteq> ''desktop''
   \<and> cacheKeyInput ''http://x.com/'' ''desktop:a'' = cacheKeyInput ''a:http://x.com/'' ''desktop''
   \<and> getCacheKey examplePlatform ''http://x.com/'' ''desktop:a''
       = getCacheKey examplePlatform ''a:http://x.com/'' ''desktop''"
  by (simp add: getCacheKey_def cacheKeyInput_def)

text \<open>
  Claim C1, amended.  The cache key is a function of the string \<open>deviceType:url\<close> alone:
  identical inputs give identical keys.  Two pairs that differ in exactly one component
  are hashed from different strings, and so are two pairs whose device types contain no
  colon; their digests then differ unless SHA-256 collides.
\<close>

theorem cache_digest_components:
  "getCacheKey plat url d
     = join [getCacheDir plat, sha256Hex plat (cacheKeyInput url d) @ ''.html'']
   \<and> (cacheKeyInput url d = cacheKeyInput url' d' \<longrightarrow>
        getCacheKey plat url d = getCacheKey plat url' d')
   \<and> (cacheKeyInput url d = cacheKeyInput url' d \<longleftrightarrow> url = url')
   \<and> (cacheKeyInput url d = cacheKeyInput url d' \<longleftrightarrow> d = d')
   \<and> (CHR '':'' \<notin> set d \<and> CHR '':'' \<notin> set d' \<longrightarrow>
        (cacheKeyInput url d = cacheKeyInput url' d' \<longleftrightarrow> url = url' \<and> d = d'))"
  using cacheKeyInput_no_colon [of d d' url url']
  by (simp add: getCacheKey_def Let_def cacheKeyInput_same_device cacheKeyInput_same_url)

theorem cache_digest_components_witness:
  "CHR '':'' \<notin> set ''desktop'' \<and> CHR '':'' \<notin> set ''mobile''
   \<and> cacheKeyInput ''http://x.com/'' ''desktop'' \<noteq> cacheKeyInput ''http://x.com/'' ''mobile''
   \<and> cacheKeyInput ''http://x.com/'' ''desktop'' = cacheKeyInput ''http://x.com/'' ''desktop''
   \<and> getCacheKey examplePlatform ''http://x.com/'' ''desktop''
       = getCacheKey examplePlatform ''http://x.com/'' ''desktop''"
proof -
  have a: "CHR '':'' \<notin> set ''desktop'' \<and> CHR '':'' \<notin> set ''mobile''" by simp
  from cache_digest_components [where d = "''desktop''" and d' = "''mobile''"
      and url = "''http://x.com/''" and url' = "''http://x.com/''"] a
  have b: "cacheKeyInput ''http://x.com/'' ''desktop'' \<noteq> cacheKeyInput ''http://x.com/'' ''mobile''"
    by simp
  from cache_digest_components [where d = "''desktop''" and d' = "''desktop''"
      and url = "''http://x.com/''" and url' = "''http://x.com/''" and plat = examplePlatform]
  have c: "getCacheKey examplePlatform ''http://x.com/'' ''desktop''
       = getCacheKey examplePlatform ''http://x.com/'' ''desktop''" by simp
  from a b c show ?thesis by simp
qed

section \<open>Properties: the readiness protocol\<close>

lemma waitForReadiness_goto_throws:
  "gotoResult env url (rc_timeoutMs config) = (Throws message, d) \<Longrightarrow>
   fst (waitForReadiness env url config False)
     = (if strIncludes message ''timeout'' then Inr () else Inl message)"
  by (simp add: waitForReadiness_def Let_def)

lemma waitForReadiness_goto_done:
  "gotoResult env url (rc_timeoutMs config) = (Done, d) \<Longrightarrow>
   fst (waitForReadiness env url config False) = Inr ()"
  by (simp add: waitForReadiness_def Let_def)

lemma render_after_setup:
  assumes "activeRequests st < rc_maxConcurrency config"
    and "browser st \<or> launchResult env = Done"
    and "newContextResult env = Done" and "newPageResult env = Done" and "routeResult env = Done"
  shows "fst (render plat env st url config ua og)
         = (case fst (waitForReadiness env url config False) of
              Inl err \<Rightarrow> Inl err
            | Inr u \<Rightarrow> extractHtml plat env config)"
proof -
  have lb: "\<And>s. browser s = browser st \<Longrightarrow> fst (launchBrowser env s) = Inr ()"
    using assms(2) by (auto simp: launchBrowser_def split: outcome.splits)
  have "fst (launchBrowser env (st\<lparr>activeRequests := activeRequests st + 1\<rparr>)) = Inr ()"
    by (rule lb) simp
  then show ?thesis
    using assms
    by (auto simp: render_def renderAdmit_def renderFinish_def renderBody_def Let_def
        split: prod.splits sum.splits)
qed

text \<open>
  Claim C2, as stated, fails in its first half.  The error that \<open>page.goto\<close> throws on a
  time-out says \<open>Timeout 10000ms exceeded\<close> and lists the URL in its call log.  For the URL
  \<open>http://localhost:8080/timeout\<close> the message contains \<open>timeout\<close>, the outer \<open>catch\<close> of
  \<open>waitForReadiness\<close> swallows the error, and the render returns the HTML of the page.
\<close>

theorem navigation_timeout_tolerated:
  "gotoResult timingOutBrowser ''http://localhost:8080/timeout'' 10000
     = (Throws (gotoTimeoutMessage ''http://localhost:8080/timeout'' 10000), 10000)
   \<and> strIncludes (gotoTimeoutMessage ''http://localhost:8080/timeout'' 10000) ''Timeout 10000ms exceeded''
   \<and> fst (render examplePlatform timingOutBrowser \<lparr>activeRequests = 0, browser = False\<rparr>
            ''http://localhost:8080/timeout'' (exampleRenderConfig 2) (Some ''RenderX/1.0'') None)
       = Inr ''<html><head></head><body><div>Hello</div></body></html>''"
  by code_simp

text \<open>
  Claim C2, amended.  An error of step 1 (the navigation) makes the render fail with that
  error exactly when its message does not contain the string \<open>timeout\<close> (in lower case); an
  error of step 1 whose message contains it is tolerated.  Whatever happens in the later
  steps (network idle, root selector, text content, second network idle) is tolerated:
  once the navigation has returned or its error has been tolerated, the readiness wait
  succeeds, and the render goes on to extract the HTML that is present.
\<close>

theorem readiness_errors:
  "(gotoResult env url (rc_timeoutMs config) = (Throws message, d) \<longrightarrow>
      fst (waitForReadiness env url config False)
        = (if strIncludes message ''timeout'' then Inr () else Inl message))
   \<and> (gotoResult env url (rc_timeoutMs config) = (Done, d) \<longrightarrow>
      fst (waitForReadiness env url config False) = Inr ())
   \<and> (activeRequests st < rc_maxConcurrency config \<and> (browser st \<or> launchResult env = Done)
       \<and> newContextResult env = Done \<and> newPageResult env = Done \<and> routeResult env = Done \<longrightarrow>
        (gotoResult env url (rc_timeoutMs config) = (Throws message, d)
           \<and> \<not> strIncludes message ''timeout'' \<longrightarrow>
         fst (render plat env st url config ua og) = Inl message)
        \<and> (gotoResult env url (rc_timeoutMs config) = (Throws message, d)
           \<and> strIncludes message ''timeout'' \<longrightarrow>
         fst (render plat env st url config ua og) = extractHtml plat env config)
        \<and> (gotoResult env url (rc_timeoutMs config) = (Done, d) \<longrightarrow>
         fst (render plat env st url config ua og) = extractHtml plat env config))"
proof (intro conjI impI)
  assume "gotoResult env url (rc_timeoutMs config) = (Throws message, d)"
  then show "fst (waitForReadiness env url config False)
        = (if strIncludes message ''timeout'' then Inr () else Inl message)"
    by (rule waitForReadiness_goto_throws)
next
  assume "gotoResult env url (rc_timeoutMs config) = (Done, d)"
  then show "fst (waitForReadiness env url config False) = Inr ()"
    by (rule waitForReadiness_goto_done)
next
  assume s: "activeRequests st < rc_maxConcurrency config \<and> (browser st \<or> launchResult env = Done)
       \<and> newContextResult env = Done \<and> newPageResult env = Done \<and> routeResult env = Done"
    and g: "gotoResult env url (rc_timeoutMs config) = (Throws message, d)
           \<and> \<not> strIncludes message ''timeout''"
  from s have "fst (render plat env st url config ua og)
         = (case fst (waitForReadiness env url config False) of
              Inl err \<Rightarrow> Inl err
            | Inr u \<Rightarrow> extractHtml plat env config)"
    by (intro render_after_setup) simp_all
  with g waitForReadiness_goto_throws [of env url config message d]
  show "fst (render plat env st url config ua og) = Inl message" by simp
next
  assume s: "activeRequests st < rc_maxConcurrency config \<and> (browser st \<or> launchResult env = Done)
       \<and> newContextResult env = Done \<and> newPageResult env = Done \<and> routeResult env = Done"
    and g: "gotoResult env url (rc_timeoutMs config) = (Throws message, d)
           \<and> strIncludes message ''timeout''"
  from s have "fst (render plat env st url config ua og)
         = (case fst (waitForReadiness env url config False) of
              Inl err \<Rightarrow> Inl err
            | Inr u \<Rightarrow> extractHtml plat env config)"
    by (intro render_after_setup) simp_all
  with g waitForReadiness_goto_throws [of env url config message d]
  show "fst (render plat env st url config ua og) = extractHtml plat env config" by simp
next
  assume s: "activeRequests st < rc_maxConcurrency config \<and> (browser st \<or> launchResult env = Done)
       \<and> newContextResult env = Done \<and> newPageResult env = Done \<and> routeResult env = Done"
    and g: "gotoResult env url (rc_timeoutMs config) = (Done, d)"
  from s have "fst (render plat env st url config ua og)
         = (case fst (waitForReadiness env url config False) of
              Inl err \<Rightarrow> Inl err
            | Inr u \<Rightarrow> extractHtml plat env config)"
    by (intro render_after_setup) simp_all
  with g waitForReadiness_goto_done [of env url config d]
  show "fst (render plat env st url config ua og) = extractHtml plat env config" by simp
qed

theorem readiness_errors_witness:
  "fst (waitForReadiness timingOutBrowser ''http://localhost:8080/about'' (exampleRenderConfig 2) False)
     = Inl (gotoTimeoutMessage ''http://localhost:8080/about'' 10000)
   \<and> fst (render examplePlatform timingOutBrowser \<lparr>activeRequests = 0, browser = False\<rparr>
            ''http://localhost:8080/about'' (exampleRenderConfig 2) (Some ''RenderX/1.0'') None)
       = Inl (gotoTimeoutMessage ''http://localhost:8080/about'' 10000)
   \<and> fst (render examplePlatform timingOutBrowser \<lparr>activeRequests = 0, browser = False\<rparr>
            ''http://localhost:8080/timeout'' (exampleRenderConfig 2) (Some ''RenderX/1.0'') None)
       = extractHtml examplePlatform timingOutBrowser (exampleRenderConfig 2)
   \<and> fst (waitForReadiness stallingBrowser ''http://localhost:8080/about'' (exampleRenderConfig 2) False)
       = Inr ()
   \<and> fst (render examplePlatform stallingBrowser \<lparr>activeRequests = 0, browser = False\<rparr>
            ''http://localhost:8080/about'' (exampleRenderConfig 2) (Some ''RenderX/1.0'') None)
       = extractHtml examplePlatform stallingBrowser (exampleRenderConfig 2)
   \<and> extractHtml examplePlatform stallingBrowser (exampleRenderConfig 2)
       = Inr ''<html><head></head><body><div>Hello</div></body></html>''"
proof -
  let ?st = "\<lparr>activeRequests = 0, browser = False\<rparr>"
  let ?c = "exampleRenderConfig 2"
  let ?about = "''http://localhost:8080/about''"
  let ?timeout = "''http://localhost:8080/timeout''"
  have g1: "gotoResult timingOutBrowser ?about (rc_timeoutMs ?c)
            = (Throws (gotoTimeoutMessage ?about 10000), 10000)" by code_simp
  have m1: "\<not> strIncludes (gotoTimeoutMessage ?about 10000) ''timeout''" by code_simp
  have g2: "gotoResult timingOutBrowser ?timeout (rc_timeoutMs ?c)
            = (Throws (gotoTimeoutMessage ?timeout 10000), 10000)" by code_simp
  have m2: "strIncludes (gotoTimeoutMessage ?timeout 10000) ''timeout''" by code_simp
  have g3: "gotoResult stallingBrowser ?about (rc_timeoutMs ?c) = (Done, 120)" by code_simp
  have s1: "activeRequests ?st < rc_maxConcurrency ?c \<and> (browser ?st \<or> launchResult timingOutBrowser = Done)
       \<and> newContextResult timingOutBrowser = Done \<and> newPageResult timingOutBrowser = Done
       \<and> routeResult timingOutBrowser = Done" by code_simp
  have s3: "activeRequests ?st < rc_maxConcurrency ?c \<and> (browser ?st \<or> launchResult stallingBrowser = Done)
       \<and> newContextResult stallingBrowser = Done \<and> newPageResult stallingBrowser = Done
       \<and> routeResult stallingBrowser = Done" by code_simp
  note w1 = readiness_errors [where env = timingOutBrowser and url = ?about and config = ?c
      and message = "gotoTimeoutMessage ?about 10000" and d = 10000 and st = ?st
      and plat = examplePlatform and ua = "Some ''RenderX/1.0''" and og = None]
  note w2 = readiness_errors [where env = timingOutBrowser and url = ?timeout and config = ?c
      and message = "gotoTimeoutMessage ?timeout 10000" and d = 10000 and st = ?st
      and plat = examplePlatform and ua = "Some ''RenderX/1.0''" and og = None]
  note w3 = readiness_errors [where env = stallingBrowser and url = ?about and config = ?c
      and d = 120 and st = ?st
      and plat = examplePlatform and ua = "Some ''RenderX/1.0''" and og = None]
  have a: "fst (waitForReadiness timingOutBrowser ?about ?c False)
           = Inl (gotoTimeoutMessage ?about 10000)"
    using w1 g1 m1 by simp
  have b: "fst (render examplePlatform timingOutBrowser ?st ?about ?c (Some ''RenderX/1.0'') None)
           = Inl (gotoTimeoutMessage ?about 10000)"
    using w1 g1 m1 s1 by blast
  have c: "fst (render examplePlatform timingOutBrowser ?st ?timeout ?c (Some ''RenderX/1.0'') None)
           = extractHtml examplePlatform timingOutBrowser ?c"
    using w2 g2 m2 s1 by blast
  have d: "fst (waitForReadiness stallingBrowser ?about ?c False) = Inr ()"
    using w3 g3 by blast
  have e: "fst (render examplePlatform stallingBrowser ?st ?about ?c (Some ''RenderX/1.0'') None)
           = extractHtml examplePlatform stallingBrowser ?c"
    using w3 g3 s3 by blast
  have f: "extractHtml examplePlatform stallingBrowser ?c
           = Inr ''<html><head></head><body><div>Hello</div></body></html>''" by code_simp
  from a b c d e f show ?thesis by blast
qed

section \<open>Properties: the routes behind the routing middleware\<close>










section \<open>Properties: a failed render\<close>







section \<open>Properties: the cache and the device type\<close>














section \<open>Properties: path confinement\<close>

lemma splitOn_single: "d \<notin> set x \<Longrightarrow> splitOn d x = [x]"
  by (induction x) (auto split: list.splits)

lemma joinWith_empty:
  "\<forall>x \<in> set xs. x \<noteq> [] \<Longrightarrow> (joinWith d xs = []) = (xs = [])"
  by (induction d xs rule: joinWith.induct) auto

lemma segments_trailing: "segments (p @ ''/'') = segments p"
  using splitOn_append [of "CHR ''/''" p "[]"] by (simp add: segments_def)

lemma segments_wf:
  "x \<in> set (segments p) \<Longrightarrow> x \<noteq> [] \<and> CHR ''/'' \<notin> set x"
  using splitOn_no_sep [of x "CHR ''/''" p] by (auto simp: segments_def)

lemma normSegs_clean:
  assumes "''..'' \<notin> set (segments p)" and "''.'' \<notin> set (segments p)"
  shows "normSegs a (splitOn (CHR ''/'') p) acc = acc @ segments p"
proof -
  have dd: "''..'' \<notin> set (splitOn (CHR ''/'') p)"
    using assms(1) by (auto simp: segments_def)
  have "filter (\<lambda>s. s \<noteq> [] \<and> s \<noteq> ''.'') (splitOn (CHR ''/'') p)
        = filter (\<lambda>s. s \<noteq> []) (splitOn (CHR ''/'') p)"
    using assms(2) by (intro filter_cong) (auto simp: segments_def)
  then show ?thesis using dd by (simp add: normSegs_no_dotdot segments_def)
qed

lemma segments_normalize_abs:
  assumes "isAbsolute p"
  shows "segments (normalize p) = normSegs False (splitOn (CHR ''/'') p) []"
    and "isAbsolute (normalize p)"
proof -
  define S where "S = normSegs False (splitOn (CHR ''/'') p) []"
  have wf: "\<forall>x \<in> set S. x \<noteq> [] \<and> CHR ''/'' \<notin> set x"
    unfolding S_def using normSegs_False_wf by blast
  have je: "(joinWith (CHR ''/'') S = []) = (S = [])"
    using wf by (intro joinWith_empty) simp
  have sj: "segments (CHR ''/'' # joinWith (CHR ''/'') S) = S"
    using wf by (rule segments_join)
  have sjt: "segments (CHR ''/'' # joinWith (CHR ''/'') S @ ''/'') = S"
    using segments_trailing [of "CHR ''/'' # joinWith (CHR ''/'') S"] sj by simp
  have root: "segments ''/'' = []" by (simp add: segments_def)
  have p: "p \<noteq> []" "hd p = CHR ''/''" using assms by (simp_all add: isAbsolute_def)
  show "segments (normalize p) = normSegs False (splitOn (CHR ''/'') p) []"
    using p je sj sjt root
    by (auto simp: normalize_def normalizeString_def Let_def S_def [symmetric])
  show "isAbsolute (normalize p)"
    using p by (auto simp: normalize_def Let_def isAbsolute_def)
qed

lemma normalize_abs_clean:
  assumes "isAbsolute p"
  shows "''..'' \<notin> set (segments (normalize p)) \<and> ''.'' \<notin> set (segments (normalize p))"
  using normSegs_False_wf [of _ p] segments_normalize_abs(1) [OF assms] by auto

lemma segments_resolve_abs:
  assumes "isAbsolute N" and "''..'' \<notin> set (segments N)" and "''.'' \<notin> set (segments N)"
  shows "segments (resolve cwd [N]) = segments N"
proof -
  have n: "N \<noteq> []" "hd N = CHR ''/''" using assms(1) by (simp_all add: isAbsolute_def)
  have rc: "resolveCollect (rev [N] @ [cwd]) [] = N @ ''/''" using n by simp
  have ab: "isAbsolute (N @ ''/'')" using n by (simp add: isAbsolute_def)
  have c: "''..'' \<notin> set (segments (N @ ''/''))" "''.'' \<notin> set (segments (N @ ''/''))"
    using assms(2,3) by (simp_all add: segments_trailing)
  have ns: "normSegs False (splitOn (CHR ''/'') (N @ ''/'')) [] = segments N"
    using normSegs_clean [OF c, of False "[]"] by (simp add: segments_trailing)
  have r: "resolve cwd [N] = CHR ''/'' # joinWith (CHR ''/'') (segments N)"
    unfolding resolve_def rc using ab ns by (simp add: normalizeString_def)
  show ?thesis unfolding r using segments_wf [of _ N] by (intro segments_join) blast
qed

lemma segments_join_file:
  assumes "isAbsolute P" and "''..'' \<notin> set (segments P)" and "''.'' \<notin> set (segments P)"
    and "f \<noteq> []" and "CHR ''/'' \<notin> set f" and "f \<noteq> ''.''" and "f \<noteq> ''..''"
  shows "segments (join [P, f]) = segments P @ [f]"
proof -
  have n: "P \<noteq> []" "hd P = CHR ''/''" using assms(1) by (simp_all add: isAbsolute_def)
  have j: "join [P, f] = normalize (P @ CHR ''/'' # f)"
    using n assms(4) by (simp add: join_def)
  have ab: "isAbsolute (P @ CHR ''/'' # f)" using n by (simp add: isAbsolute_def)
  have sp: "splitOn (CHR ''/'') (P @ CHR ''/'' # f) = splitOn (CHR ''/'') P @ [f]"
    using splitOn_append [of "CHR ''/''" P f] splitOn_single [OF assms(5)] by simp
  have "normSegs False (splitOn (CHR ''/'') (P @ CHR ''/'' # f)) [] = segments P @ [f]"
    unfolding sp normSegs_append
    using normSegs_clean [OF assms(2,3), of False "[]"] assms(4,6,7) by simp
  then show ?thesis unfolding j using segments_normalize_abs(1) [OF ab] by simp
qed

lemma hostsPath_abs:
  assumes "isAbsolute (processCwd plat)"
  shows "isAbsolute (hostsPath plat src)"
    and "''..'' \<notin> set (segments (hostsPath plat src))"
    and "''.'' \<notin> set (segments (hostsPath plat src))"
proof -
  define joined where
    "joined = joinWith (CHR ''/'') (filter (\<lambda>a. a \<noteq> []) [processCwd plat, ''./hosts'', src])"
  have n: "processCwd plat \<noteq> []" "hd (processCwd plat) = CHR ''/''"
    using assms by (simp_all add: isAbsolute_def)
  have ab: "isAbsolute joined"
    unfolding joined_def using n by (cases "src = []") (simp_all add: isAbsolute_def)
  have h: "hostsPath plat src = normalize joined"
    using ab unfolding hostsPath_def join_def joined_def [symmetric]
    by (simp add: Let_def isAbsolute_def)
  show "isAbsolute (hostsPath plat src)" unfolding h by (rule segments_normalize_abs(2) [OF ab])
  show "''..'' \<notin> set (segments (hostsPath plat src))"
    unfolding h using normalize_abs_clean [OF ab] by simp
  show "''.'' \<notin> set (segments (hostsPath plat src))"
    unfolding h using normalize_abs_clean [OF ab] by simp
qed

lemma index_within:
  assumes "isAbsolute (processCwd plat)"
  shows "pathWithin (resolve (processCwd plat) [hostsPath plat src])
           (join [hostsPath plat src, ''index.html''])"
proof -
  note h = hostsPath_abs [OF assms, of src]
  have "segments (join [hostsPath plat src, ''index.html'']) = segments (hostsPath plat src) @ [''index.html'']"
    by (rule segments_join_file [OF h]) simp_all
  moreover have "segments (resolve (processCwd plat) [hostsPath plat src]) = segments (hostsPath plat src)"
    by (rule segments_resolve_abs [OF h])
  ultimately show ?thesis by (simp add: pathWithin_def)
qed

lemma serveFileOrDirIndex_within:
  assumes "isAbsolute cwd"
    and "serveFileOrDirIndex senv (validatePath cwd base rp) = Some r"
  shows "\<exists>q. r = SendFile q \<and> pathWithin (resolve cwd [base]) q \<and> existsSync senv q"
proof (cases "validatePath cwd base rp")
  case None
  with assms(2) show ?thesis by (simp add: serveFileOrDirIndex_def)
next
  case (Some p)
  from validatePath_Some [OF assms(1) Some]
  have v: "isAbsolute p" "pathWithin (resolve cwd [base]) p"
    "''..'' \<notin> set (segments p)" "''.'' \<notin> set (segments p)" by simp_all
  have "segments (join [p, ''index.html'']) = segments p @ [''index.html'']"
    by (rule segments_join_file [OF v(1,3,4)]) simp_all
  with v(2) have w: "pathWithin (resolve cwd [base]) (join [p, ''index.html''])"
    by (simp add: pathWithin_def)
  show ?thesis
    using assms(2) Some v(2) w
    by (auto simp: serveFileOrDirIndex_def Let_def split: if_splits)
qed

text \<open>
  A file that the router may send: always an existing file within the source directory
  of a configured host.
\<close>

lemma getHostConfig_member:
  "getHostConfig config hn = Some hc \<Longrightarrow> hc \<in> set (g_hosts config)"
  by (auto simp: getHostConfig_def find_Some_iff split: option.splits)

lemma tryHostsFile_within:
  assumes "isAbsolute (processCwd plat)"
    and "tryHostsFile plat senv rp hosts = Some r"
  shows "\<exists>hc q. hc \<in> set hosts \<and> r = SendFile q
           \<and> pathWithin (resolve (processCwd plat) [hostsPath plat (source hc)]) q"
  using assms(2)
proof (induction hosts)
  case Nil
  then show ?case by simp
next
  case (Cons h hs)
  show ?case
  proof (cases "tryHostsFile plat senv rp hs = Some r")
    case True
    with Cons.IH show ?thesis by auto
  next
    case False
    with Cons.prems obtain p where
      v: "validatePath (processCwd plat) (hostsPath plat (source h)) rp = Some p" and r: "r = SendFile p"
      by (auto split: if_splits option.splits)
    from validatePath_Some [OF assms(1) v] r show ?thesis by auto
  qed
qed

lemma tryHostsFileOrDir_within:
  assumes "isAbsolute (processCwd plat)"
    and "tryHostsFileOrDir plat senv rp target hosts = Some r"
  shows "\<exists>hc q. hc \<in> set hosts \<and> r = SendFile q
           \<and> pathWithin (resolve (processCwd plat) [hostsPath plat (source hc)]) q"
  using assms(2)
proof (induction hosts)
  case Nil
  then show ?case by simp
next
  case (Cons h hs)
  show ?case
  proof (cases "tryHostsFileOrDir plat senv rp target hs = Some r")
    case True
    with Cons.IH show ?thesis by auto
  next
    case False
    with Cons.prems have
      "serveFileOrDirIndex senv (validatePath (processCwd plat) (hostsPath plat (source h)) rp) = Some r"
      by (auto split: if_splits option.splits)
    from serveFileOrDirIndex_within [OF assms(1) this] show ?thesis by auto
  qed
qed

lemma tryHostsIndex_within:
  assumes "isAbsolute (processCwd plat)"
    and "tryHostsIndex plat senv hosts = Some r"
  shows "\<exists>hc q. hc \<in> set hosts \<and> r = SendFile q
           \<and> pathWithin (resolve (processCwd plat) [hostsPath plat (source hc)]) q"
  using assms(2)
proof (induction hosts)
  case Nil
  then show ?case by simp
next
  case (Cons h hs)
  show ?case
  proof (cases "tryHostsIndex plat senv hs = Some r")
    case True
    with Cons.IH show ?thesis by auto
  next
    case False
    with Cons.prems have "r = SendFile (join [hostsPath plat (source h), ''index.html''])"
      by (auto simp: Let_def split: if_splits)
    with index_within [OF assms(1), of "source h"] show ?thesis by auto
  qed
qed

lemma internalRoute_within:
  assumes "isAbsolute (processCwd plat)"
    and "internalRoute plat senv req = SendFile p"
  shows "\<exists>hc. hc \<in> set (g_hosts (globalConfig senv))
           \<and> pathWithin (resolve (processCwd plat) [hostsPath plat (source hc)]) p"
proof -
  define target where
    "target = (case (if truthy (r_origin req) then
                       (case newURL plat (the (r_origin req)) of
                          None \<Rightarrow> None
                        | Some originUrl \<Rightarrow> getHostConfig (globalConfig senv) (u_hostname originUrl))
                     else None) of
                 Some t \<Rightarrow> Some t
               | None \<Rightarrow> (let hostname = hostHeaderName req
                           in if hostname \<noteq> [] then getHostConfig (globalConfig senv) hostname
                              else None))"
  have tm: "\<And>t. target = Some t \<Longrightarrow> t \<in> set (g_hosts (globalConfig senv))"
    unfolding target_def
    by (auto simp: Let_def dest: getHostConfig_member split: option.splits if_splits)
  define first where
    "first = (case target of
               None \<Rightarrow> None
             | Some t \<Rightarrow>
                 if isActive t = Some False then None
                 else
                   (let sourcePath = hostsPath plat (source t)
                    in case serveFileOrDirIndex senv
                              (validatePath (processCwd plat) sourcePath (r_path req)) of
                         Some r \<Rightarrow> Some r
                       | None \<Rightarrow>
                           if \<not> isFilePath (r_path req) then
                             (let indexPath = join [sourcePath, ''index.html'']
                              in if existsSync senv indexPath then Some (SendFile indexPath)
                                 else None)
                           else None))"
  have ir: "internalRoute plat senv req =
        (case first of
           Some r \<Rightarrow> r
         | None \<Rightarrow>
             (case tryHostsFileOrDir plat senv (r_path req) target (g_hosts (globalConfig senv)) of
                Some r \<Rightarrow> r
              | None \<Rightarrow>
                  (case (if \<not> isFilePath (r_path req)
                         then tryHostsIndex plat senv (g_hosts (globalConfig senv))
                         else None) of
                     Some r \<Rightarrow> r
                   | None \<Rightarrow> SendError 404 ''Not found'')))"
    unfolding internalRoute_def first_def target_def Let_def by simp
  have f: "\<And>r. first = Some r \<Longrightarrow>
             \<exists>hc q. hc \<in> set (g_hosts (globalConfig senv)) \<and> r = SendFile q
               \<and> pathWithin (resolve (processCwd plat) [hostsPath plat (source hc)]) q"
  proof -
    fix r assume a: "first = Some r"
    then obtain t where t: "target = Some t"
      unfolding first_def by (cases target) auto
    show "\<exists>hc q. hc \<in> set (g_hosts (globalConfig senv)) \<and> r = SendFile q
               \<and> pathWithin (resolve (processCwd plat) [hostsPath plat (source hc)]) q"
    proof (cases "serveFileOrDirIndex senv
                    (validatePath (processCwd plat) (hostsPath plat (source t)) (r_path req))")
      case None
      with a t have "r = SendFile (join [hostsPath plat (source t), ''index.html''])"
        unfolding first_def by (auto simp: Let_def split: if_splits)
      with index_within [OF assms(1), of "source t"] tm [OF t] show ?thesis by auto
    next
      case (Some r')
      with a t have "r' = r" unfolding first_def by (auto simp: Let_def split: if_splits)
      with serveFileOrDirIndex_within [OF assms(1) Some] tm [OF t] show ?thesis by auto
    qed
  qed
  show ?thesis
  proof (cases first)
    case (Some r)
    with ir assms(2) have "r = SendFile p" by simp
    with f [OF Some] show ?thesis by auto
  next
    case None
    show ?thesis
    proof (cases "tryHostsFileOrDir plat senv (r_path req) target (g_hosts (globalConfig senv))")
      case (Some r)
      with ir None assms(2) have "r = SendFile p" by simp
      with tryHostsFileOrDir_within [OF assms(1) Some] show ?thesis by auto
    next
      case n2: None
      with ir None assms(2) have "tryHostsIndex plat senv (g_hosts (globalConfig senv)) = Some (SendFile p)"
        by (auto split: if_splits option.splits)
      from tryHostsIndex_within [OF assms(1) this] show ?thesis by auto
    qed
  qed
qed

lemma hostRoute_within:
  assumes "isAbsolute (processCwd plat)"
    and "hostRoute plat senv req hn hc = Respond (SendFile p)
         \<or> hostRoute plat senv req hn hc = RenderOrFile k l og ec p"
  shows "pathWithin (resolve (processCwd plat) [hostsPath plat (source hc)]) p"
proof -
  have sp: "join [processCwd plat, e_hostsDir (getEffectiveConfig (globalConfig senv) (Some hn)), source hc]
            = hostsPath plat (source hc)"
    by (simp add: hostsPath_def getEffectiveConfig_def Let_def)
  note ix = index_within [OF assms(1), of "source hc"]
  show ?thesis
  proof (cases "r_path req = ''/''")
    case True
    with assms(2) have "p = join [hostsPath plat (source hc), ''index.html'']"
      unfolding hostRoute_def Let_def sp by (auto split: if_splits)
    with ix show ?thesis by simp
  next
    case False
    show ?thesis
    proof (cases "serveFileOrDirIndex senv
                    (validatePath (processCwd plat) (hostsPath plat (source hc)) (r_path req))")
      case None
      with assms(2) False have "p = join [hostsPath plat (source hc), ''index.html'']"
        unfolding hostRoute_def Let_def sp by (auto split: if_splits)
      with ix show ?thesis by simp
    next
      case (Some r)
      with assms(2) False have "r = SendFile p"
        unfolding hostRoute_def Let_def sp by (auto split: if_splits)
      with serveFileOrDirIndex_within [OF assms(1) Some] show ?thesis by auto
    qed
  qed
qed

lemma mainRoute_within:
  assumes "isAbsolute (processCwd plat)"
    and "mainRoute plat senv req = Respond (SendFile p)
         \<or> mainRoute plat senv req = RenderOrFile k l og ec p"
  shows "\<exists>hc. hc \<in> set (g_hosts (globalConfig senv))
           \<and> pathWithin (resolve (processCwd plat) [hostsPath plat (source hc)]) p"
proof (cases "isInternalRender req")
  case True
  with assms(2) have "internalRoute plat senv req = SendFile p"
    by (auto simp: mainRoute_def Let_def)
  from internalRoute_within [OF assms(1) this] show ?thesis .
next
  case False
  show ?thesis
  proof (cases "isFilePath (r_path req) \<and> \<not> truthy (r_origin req)
                \<and> tryHostsFile plat senv (r_path req) (g_hosts (globalConfig senv)) \<noteq> None")
    case True
    then obtain r where t: "tryHostsFile plat senv (r_path req) (g_hosts (globalConfig senv)) = Some r"
      by auto
    with True False assms(2) have "r = SendFile p" by (auto simp: mainRoute_def Let_def)
    with tryHostsFile_within [OF assms(1) t] show ?thesis by auto
  next
    case nf: False
    from assms(2) False nf obtain hn hc where
      g: "getHostConfig (globalConfig senv) hn = Some hc"
      and h: "hostRoute plat senv req hn hc = Respond (SendFile p)
              \<or> hostRoute plat senv req hn hc = RenderOrFile k l og ec p"
      by (auto simp: mainRoute_def Let_def split: if_splits option.splits sum.splits)
    from hostRoute_within [OF assms(1) h] getHostConfig_member [OF g] show ?thesis by auto
  qed
qed

lemma mainMiddleware_within:
  assumes "isAbsolute (processCwd plat)"
    and "fst (mainMiddleware plat senv env now nowSet st req) = SendFile p"
  shows "\<exists>hc. hc \<in> set (g_hosts (globalConfig senv))
           \<and> pathWithin (resolve (processCwd plat) [hostsPath plat (source hc)]) p"
proof (cases "mainRoute plat senv req")
  case (Respond r)
  with assms(2) have "mainRoute plat senv req = Respond (SendFile p)"
    by (simp add: mainMiddleware_def)
  then show ?thesis using mainRoute_within [OF assms(1)] by blast
next
  case (RenderOrFile k l og ec ip)
  have "\<And>r s. renderPage plat env now nowSet st k l og ec = (Some r, s) \<Longrightarrow> r \<noteq> SendFile p"
    by (auto simp: renderPage_def split: prod.splits if_splits sum.splits)
  with assms(2) RenderOrFile have "ip = p"
    by (auto simp: mainMiddleware_def split: prod.splits option.splits)
  with RenderOrFile show ?thesis using mainRoute_within [OF assms(1)] by blast
qed

lemma hostRoute_rejected:
  assumes "validatePath (processCwd plat) (hostsPath plat (source hc)) (r_path req) = None"
    and "r_path req \<noteq> ''/''"
  shows "(existsSync senv (join [hostsPath plat (source hc), ''index.html'']) \<longrightarrow>
            hostRoute plat senv req hn hc
              = Respond (SendFile (join [hostsPath plat (source hc), ''index.html'']))
            \<or> (\<exists>k l og ec. hostRoute plat senv req hn hc
                  = RenderOrFile k l og ec (join [hostsPath plat (source hc), ''index.html''])))
         \<and> (\<not> existsSync senv (join [hostsPath plat (source hc), ''index.html'']) \<longrightarrow>
            hostRoute plat senv req hn hc = Respond (SendError 404 ''Not found''))"
proof -
  have sp: "join [processCwd plat, e_hostsDir (getEffectiveConfig (globalConfig senv) (Some hn)), source hc]
            = hostsPath plat (source hc)"
    by (simp add: hostsPath_def getEffectiveConfig_def Let_def)
  show ?thesis
    using assms unfolding hostRoute_def Let_def sp
    by (simp add: serveFileOrDirIndex_def)
qed

text \<open>
  Claim C5, as stated, fails in what a rejection leads to.  The request for
  \<open>/../../etc/passwd\<close> on the host \<open>x.example\<close> is rejected by \<open>validatePath\<close>, and the router
  goes on to the fallback for SPA routes: it answers with the \<open>index.html\<close> of the host,
  status 200, not with 404.
\<close>

theorem rejected_path_served_index:
  "validatePath (processCwd examplePlatform) (hostsPath examplePlatform ''wild'') ''/../../etc/passwd''
     = None
   \<and> fst (mainMiddleware examplePlatform exampleServer exampleBrowser 1000 1200 exampleState
            (exampleRequest ''https://x.example'' ''Mozilla/5.0'' ''/../../etc/passwd''))
       = SendFile ''/app/hosts/wild/index.html''
   \<and> statusOf (SendFile ''/app/hosts/wild/index.html'') = Some 200"
proof -
  have a: "validatePath (processCwd examplePlatform) (hostsPath examplePlatform ''wild'')
             ''/../../etc/passwd'' = None" by code_simp
  have b: "mainRoute examplePlatform exampleServer
             (exampleRequest ''https://x.example'' ''Mozilla/5.0'' ''/../../etc/passwd'')
           = Respond (SendFile ''/app/hosts/wild/index.html'')" by code_simp
  have c: "fst (mainMiddleware examplePlatform exampleServer exampleBrowser 1000 1200 exampleState
            (exampleRequest ''https://x.example'' ''Mozilla/5.0'' ''/../../etc/passwd''))
       = SendFile ''/app/hosts/wild/index.html''"
    by (simp add: mainMiddleware_def b)
  have d: "statusOf (SendFile ''/app/hosts/wild/index.html'') = Some 200"
    by (simp add: statusOf_def)
  from a c d show ?thesis by blast
qed

text \<open>
  Claim C5, amended.  The working directory of the process is an absolute path.  For
  every base directory and every requested path, \<open>validatePath\<close> returns either nothing
  or an absolute path that lies within the resolved base directory and has no \<open>..\<close>
  segment; a path whose normalized relative form contains \<open>..\<close> or is absolute is
  rejected.  A rejection does not by itself end in a 404: for a path other than \<open>/\<close> the
  router goes on to the \<open>index.html\<close> of the host (sent as it is, or rendered), and
  answers 404 only when that file does not exist.  Every file that the main routing
  middleware sends lies within the source directory of a configured host.
\<close>

theorem path_confinement:
  assumes "isAbsolute (processCwd plat)"
  shows "(case validatePath (processCwd plat) basePath requestedPath of
            None \<Rightarrow> True
          | Some p \<Rightarrow> isAbsolute p \<and> pathWithin (resolve (processCwd plat) [basePath]) p
                      \<and> ''..'' \<notin> set (segments p))
         \<and> ((strIncludes (normalize (if startsWith requestedPath ''/''
                                     then drop 1 requestedPath else requestedPath)) ''..''
              \<or> isAbsolute (normalize (if startsWith requestedPath ''/''
                                        then drop 1 requestedPath else requestedPath)))
             \<longrightarrow> validatePath (processCwd plat) basePath requestedPath = None)
         \<and> (validatePath (processCwd plat) (hostsPath plat (source hc)) (r_path req) = None
              \<and> r_path req \<noteq> ''/'' \<longrightarrow>
             (existsSync senv (join [hostsPath plat (source hc), ''index.html'']) \<longrightarrow>
                hostRoute plat senv req hn hc
                  = Respond (SendFile (join [hostsPath plat (source hc), ''index.html'']))
                \<or> (\<exists>k l og ec. hostRoute plat senv req hn hc
                      = RenderOrFile k l og ec (join [hostsPath plat (source hc), ''index.html''])))
             \<and> (\<not> existsSync senv (join [hostsPath plat (source hc), ''index.html'']) \<longrightarrow>
                hostRoute plat senv req hn hc = Respond (SendError 404 ''Not found'')))
         \<and> (fst (mainMiddleware plat senv env now nowSet st req) = SendFile sent \<longrightarrow>
             (\<exists>h. h \<in> set (g_hosts (globalConfig senv))
                \<and> pathWithin (resolve (processCwd plat) [hostsPath plat (source h)]) sent))"
proof (intro conjI)
  show "case validatePath (processCwd plat) basePath requestedPath of
            None \<Rightarrow> True
          | Some p \<Rightarrow> isAbsolute p \<and> pathWithin (resolve (processCwd plat) [basePath]) p
                      \<and> ''..'' \<notin> set (segments p)"
    using validatePath_Some [OF assms]
    by (cases "validatePath (processCwd plat) basePath requestedPath") auto
next
  show "(strIncludes (normalize (if startsWith requestedPath ''/''
                                     then drop 1 requestedPath else requestedPath)) ''..''
              \<or> isAbsolute (normalize (if startsWith requestedPath ''/''
                                        then drop 1 requestedPath else requestedPath)))
             \<longrightarrow> validatePath (processCwd plat) basePath requestedPath = None"
    by (simp add: validatePath_def Let_def)
next
  show "validatePath (processCwd plat) (hostsPath plat (source hc)) (r_path req) = None
              \<and> r_path req \<noteq> ''/'' \<longrightarrow>
             (existsSync senv (join [hostsPath plat (source hc), ''index.html'']) \<longrightarrow>
                hostRoute plat senv req hn hc
                  = Respond (SendFile (join [hostsPath plat (source hc), ''index.html'']))
                \<or> (\<exists>k l og ec. hostRoute plat senv req hn hc
                      = RenderOrFile k l og ec (join [hostsPath plat (source hc), ''index.html''])))
             \<and> (\<not> existsSync senv (join [hostsPath plat (source hc), ''index.html'']) \<longrightarrow>
                hostRoute plat senv req hn hc = Respond (SendError 404 ''Not found''))"
    using hostRoute_rejected by blast
next
  show "fst (mainMiddleware plat senv env now nowSet st req) = SendFile sent \<longrightarrow>
             (\<exists>h. h \<in> set (g_hosts (globalConfig senv))
                \<and> pathWithin (resolve (processCwd plat) [hostsPath plat (source h)]) sent)"
    using mainMiddleware_within [OF assms] by blast
qed

theorem path_confinement_witness:
  "isAbsolute (processCwd examplePlatform)
   \<and> validatePath (processCwd examplePlatform) (hostsPath examplePlatform ''app'') ''/assets/index.js''
       = Some ''/app/hosts/app/assets/index.js''
   \<and> pathWithin (resolve (processCwd examplePlatform) [hostsPath examplePlatform ''app''])
        ''/app/hosts/app/assets/index.js''
   \<and> validatePath (processCwd examplePlatform) (hostsPath examplePlatform ''app'') ''/../../etc/passwd''
       = None
   \<and> (hostRoute examplePlatform exampleServer
         (exampleRequest ''https://x.example'' ''Mozilla/5.0'' ''/../../etc/passwd'')
         ''x.example'' (exampleHost ''wild'' ''*.example'' None)
        = Respond (SendFile (join [hostsPath examplePlatform ''wild'', ''index.html'']))
      \<or> (\<exists>k l og ec. hostRoute examplePlatform exampleServer
            (exampleRequest ''https://x.example'' ''Mozilla/5.0'' ''/../../etc/passwd'')
            ''x.example'' (exampleHost ''wild'' ''*.example'' None)
           = RenderOrFile k l og ec (join [hostsPath examplePlatform ''wild'', ''index.html''])))
   \<and> fst (mainMiddleware examplePlatform exampleServer exampleBrowser 1000 1200 exampleState
            (exampleRequest ''https://app.example'' ''Mozilla/5.0'' ''/assets/index.js''))
       = SendFile ''/app/hosts/app/assets/index.js''
   \<and> (\<exists>h. h \<in> set (g_hosts (globalConfig exampleServer))
          \<and> pathWithin (resolve (processCwd examplePlatform) [hostsPath examplePlatform (source h)])
               ''/app/hosts/app/assets/index.js'')"
proof -
  let ?bad = "exampleRequest ''https://x.example'' ''Mozilla/5.0'' ''/../../etc/passwd''"
  let ?good = "exampleRequest ''https://app.example'' ''Mozilla/5.0'' ''/assets/index.js''"
  let ?wild = "exampleHost ''wild'' ''*.example'' None"
  have h: "isAbsolute (processCwd examplePlatform)" by code_simp
  have v: "validatePath (processCwd examplePlatform) (hostsPath examplePlatform ''app'')
             ''/assets/index.js'' = Some ''/app/hosts/app/assets/index.js''" by code_simp
  have n: "strIncludes (normalize (if startsWith ''/../../etc/passwd'' ''/''
                                   then drop 1 ''/../../etc/passwd'' else ''/../../etc/passwd'')) ''..''"
    by code_simp
  have s: "source ?wild = ''wild''" by (simp add: exampleHost_def)
  have rp: "r_path ?bad = ''/../../etc/passwd''" by (simp add: exampleRequest_def)
  have ne: "''/../../etc/passwd'' \<noteq> ''/''" by simp
  have ex: "existsSync exampleServer (join [hostsPath examplePlatform ''wild'', ''index.html''])"
    by code_simp
  have m: "mainRoute examplePlatform exampleServer ?good
           = Respond (SendFile ''/app/hosts/app/assets/index.js'')" by code_simp
  have mm: "fst (mainMiddleware examplePlatform exampleServer exampleBrowser 1000 1200 exampleState ?good)
            = SendFile ''/app/hosts/app/assets/index.js''"
    by (simp add: mainMiddleware_def m)
  note w1 = path_confinement [OF h, where basePath = "hostsPath examplePlatform ''app''"
      and requestedPath = "''/assets/index.js''"]
  note w2 = path_confinement [OF h, where basePath = "hostsPath examplePlatform ''app''"
      and requestedPath = "''/../../etc/passwd''"]
  note w3 = path_confinement [OF h, where basePath = "hostsPath examplePlatform ''wild''"
      and requestedPath = "''/../../etc/passwd''" and hc = ?wild and req = ?bad
      and senv = exampleServer and hn = "''x.example''"]
  note w4 = path_confinement [OF h, where senv = exampleServer and env = exampleBrowser
      and now = 1000 and nowSet = 1200 and st = exampleState and req = ?good
      and sent = "''/app/hosts/app/assets/index.js''"]
  have a: "pathWithin (resolve (processCwd examplePlatform) [hostsPath examplePlatform ''app''])
             ''/app/hosts/app/assets/index.js''"
    using w1 v by simp
  have b: "validatePath (processCwd examplePlatform) (hostsPath examplePlatform ''app'')
             ''/../../etc/passwd'' = None"
    using w2 n by blast
  have b': "validatePath (processCwd examplePlatform) (hostsPath examplePlatform (source ?wild))
              (r_path ?bad) = None"
    unfolding s rp using w3 n by blast
  have c: "hostRoute examplePlatform exampleServer ?bad ''x.example'' ?wild
             = Respond (SendFile (join [hostsPath examplePlatform ''wild'', ''index.html'']))
           \<or> (\<exists>k l og ec. hostRoute examplePlatform exampleServer ?bad ''x.example'' ?wild
                 = RenderOrFile k l og ec (join [hostsPath examplePlatform ''wild'', ''index.html'']))"
    using w3 b' ex ne unfolding s rp by blast
  have d: "\<exists>h. h \<in> set (g_hosts (globalConfig exampleServer))
          \<and> pathWithin (resolve (processCwd examplePlatform) [hostsPath examplePlatform (source h)])
               ''/app/hosts/app/assets/index.js''"
    using w4 mm by blast
  from h v a b c mm d show ?thesis by blast
qed

section \<open>Properties: host lookup\<close>

text \<open>
  Claim C6 against the code.  \<open>matchesGlobPattern\<close> writes every \<open>*\<close> of the pattern as the
  text \<open>__WILDCARD_PLACEHOLDER__\<close> and later turns every occurrence of that text into \<open>.*\<close>,
  also an occurrence that the pattern itself has brought along.  The pattern
  \<open>__WILDCARD_PLACEHOLDER__\<close> has no \<open>*\<close>, so by the specification it matches only itself;
  the code makes it the regular expression \<open>^.*$\<close>, which matches \<open>evil.com\<close>, and host
  lookup returns that host for \<open>evil.com\<close>.  In the other direction the pattern
  \<open>__WILDCARD_PLACEHOLDER_*\<close> should match \<open>__WILDCARD_PLACEHOLDER_x\<close> and does not.
\<close>

theorem glob_placeholder_clash:
  "\<not> specGlob ''__WILDCARD_PLACEHOLDER__'' ''evil.com''
   \<and> globRegexBody ''__WILDCARD_PLACEHOLDER__'' = ''.*''
   \<and> matchesGlobPattern ''__WILDCARD_PLACEHOLDER__'' ''evil.com''
   \<and> getHostConfig (patternConfig ''__WILDCARD_PLACEHOLDER__'') ''evil.com''
       = Some (exampleHost ''app'' ''__WILDCARD_PLACEHOLDER__'' None)
   \<and> specGlob ''__WILDCARD_PLACEHOLDER_*'' ''__WILDCARD_PLACEHOLDER_x''
   \<and> globRegexBody ''__WILDCARD_PLACEHOLDER_*'' = ''.*_WILDCARD_PLACEHOLDER__''
   \<and> \<not> matchesGlobPattern ''__WILDCARD_PLACEHOLDER_*'' ''__WILDCARD_PLACEHOLDER_x''"
  by code_simp

section \<open>Properties: the HTML optimizer\<close>

text \<open>
  Claim C8 against the code.  The pass that removes empty elements visits the elements
  of the body once, in document order, and decides on each as it stands at that moment:
  a \<open>div\<close> whose only child is an empty \<open>span\<close> is kept, because it still has a child when
  it is visited, and the \<open>span\<close> is removed after it.  The output then has an empty \<open>div\<close>,
  which a second run of the optimizer removes: the optimizer is not idempotent.
\<close>

theorem optimizer_second_run_differs:
  "optimizeHtmlForSEO examplePlatform
      ''<html><head></head><body><div><span></span></div></body></html>'' None
     = ''<html><head></head><body><div></div></body></html>''
   \<and> optimizeHtmlForSEO examplePlatform
        ''<html><head></head><body><div></div></body></html>'' None
       = ''<html><head></head><body></body></html>''
   \<and> optimizeHtmlForSEO examplePlatform
        (optimizeHtmlForSEO examplePlatform
           ''<html><head></head><body><div><span></span></div></body></html>'' None) None
       \<noteq> optimizeHtmlForSEO examplePlatform
           ''<html><head></head><body><div><span></span></div></body></html>'' None"
proof -
  have a: "optimizeHtmlForSEO examplePlatform
      ''<html><head></head><body><div><span></span></div></body></html>'' None
     = ''<html><head></head><body><div></div></body></html>''" by code_simp
  have b: "optimizeHtmlForSEO examplePlatform
        ''<html><head></head><body><div></div></body></html>'' None
       = ''<html><head></head><body></body></html>''" by code_simp
  show ?thesis unfolding a b by simp
qed

end
